theory Spec2Isabelle
  imports Complex_Main "HOL-Library.Word" "HOL-Library.Log_Nat"
    "HOL-Library.Char_ord" "HOL-Library.List_Lexorder"
begin

section \<open>Numbers and strings\<close>

text \<open>
  The bot exists in two variants: the baseline (\<^verbatim>\<open>src/code/src/bot.ts\<close> with
  \<^verbatim>\<open>src/code/src/db.ts\<close>) and the advanced one (\<^verbatim>\<open>src/unnamed/part_000\<close> with
  \<^verbatim>\<open>src/unnamed/part_001\<close>), which adds comments, more commands and a different
  scoring function.

  A JavaScript number is a double. The numbers of this program start as results of
  \<^verbatim>\<open>parseInt\<close> and are combined by subtraction, absolute value, multiplication and
  addition, so each of them is an integer that a double can hold, an infinity or NaN.
  \<open>Num n\<close> stands for the double of value \<open>n\<close>; the two zeros are not told apart (no
  operation here observes the sign of zero). The store keeps such a number as it is: an
  integer, or a real for the values no 64-bit integer holds, and NaN never reaches it.
\<close>

datatype number = Num int | PosInf | NegInf | NaN

text \<open>
  The double nearest to an integer, ties to the even significand: integers below \<open>2^53\<close>
  in magnitude are doubles; a larger one keeps its 53 leading bits, rounded, and becomes an
  infinity when the rounded value reaches \<open>2^1024\<close>. \<open>bitlen\<close> is the number of bits of a
  positive integer.
\<close>

definition to_double :: "int \<Rightarrow> number" where
  "to_double m =
     (let a = \<bar>m\<bar> in
      if a < 2 ^ 53 then Num m
      else
        (let e = nat (bitlen a) - 53;
             q = a div 2 ^ e;
             r = a mod 2 ^ e;
             half = 2 ^ (e - 1);
             q' = (if half < r \<or> (r = half \<and> odd q) then q + 1 else q);
             v = q' * 2 ^ e
         in if 2 ^ 1024 \<le> v then (if m < 0 then NegInf else PosInf)
            else Num (if m < 0 then - v else v)))"

text \<open>The operators \<^verbatim>\<open>-\<close>, \<^verbatim>\<open>+\<close>, \<^verbatim>\<open>*\<close>, \<^verbatim>\<open>Math.abs\<close> and \<^verbatim>\<open><\<close> on such numbers.\<close>

fun num_sub :: "number \<Rightarrow> number \<Rightarrow> number" where
  "num_sub (Num a) (Num b) = to_double (a - b)"
| "num_sub (Num a) PosInf = NegInf"
| "num_sub (Num a) NegInf = PosInf"
| "num_sub PosInf (Num b) = PosInf"
| "num_sub PosInf NegInf = PosInf"
| "num_sub PosInf PosInf = NaN"
| "num_sub NegInf (Num b) = NegInf"
| "num_sub NegInf PosInf = NegInf"
| "num_sub NegInf NegInf = NaN"
| "num_sub NaN y = NaN"
| "num_sub x NaN = NaN"

fun num_add :: "number \<Rightarrow> number \<Rightarrow> number" where
  "num_add (Num a) (Num b) = to_double (a + b)"
| "num_add (Num a) PosInf = PosInf"
| "num_add (Num a) NegInf = NegInf"
| "num_add PosInf (Num b) = PosInf"
| "num_add PosInf PosInf = PosInf"
| "num_add PosInf NegInf = NaN"
| "num_add NegInf (Num b) = NegInf"
| "num_add NegInf NegInf = NegInf"
| "num_add NegInf PosInf = NaN"
| "num_add NaN y = NaN"
| "num_add x NaN = NaN"

definition inf_of_sign :: "int \<Rightarrow> number" where
  "inf_of_sign k = (if k = 0 then NaN else if 0 < k then PosInf else NegInf)"

fun num_mult :: "number \<Rightarrow> number \<Rightarrow> number" where
  "num_mult (Num a) (Num b) = to_double (a * b)"
| "num_mult (Num a) PosInf = inf_of_sign a"
| "num_mult (Num a) NegInf = inf_of_sign (- a)"
| "num_mult PosInf (Num b) = inf_of_sign b"
| "num_mult NegInf (Num b) = inf_of_sign (- b)"
| "num_mult PosInf PosInf = PosInf"
| "num_mult PosInf NegInf = NegInf"
| "num_mult NegInf PosInf = NegInf"
| "num_mult NegInf NegInf = PosInf"
| "num_mult NaN y = NaN"
| "num_mult x NaN = NaN"

fun num_abs :: "number \<Rightarrow> number" where
  "num_abs (Num a) = Num \<bar>a\<bar>"
| "num_abs PosInf = PosInf"
| "num_abs NegInf = PosInf"
| "num_abs NaN = NaN"

fun num_less :: "number \<Rightarrow> number \<Rightarrow> bool" where
  "num_less (Num a) (Num b) = (a < b)"
| "num_less (Num a) PosInf = True"
| "num_less NegInf (Num b) = True"
| "num_less NegInf PosInf = True"
| "num_less x y = False"

text \<open>
  A JavaScript string is a sequence of 16-bit code units. The score text, which the
  parser inspects, is modelled so. Text that the handlers only store, compare for equality
  and return (ids, names, comments, the descriptive fields of a match) is a \<open>string\<close>,
  the bytes under which the store keeps and orders it. \<open>utf16\<close> gives the code units of
  a text of Latin-1 characters.
\<close>

type_synonym code_unit = "16 word"

type_synonym jsstring = "code_unit list"

definition utf16 :: "string \<Rightarrow> jsstring" where
  "utf16 s = map (\<lambda>c. word_of_nat (of_char c)) s"

section \<open>Scores, the score parser and the scoring function\<close>

record Score =
  runs :: number
  wickets :: number

datatype variant = Simple | Advanced

text \<open>
  \<^verbatim>\<open>String.prototype.trim\<close> and the first step of \<^verbatim>\<open>parseInt\<close> remove white space and
  line terminators: TAB, LF, VT, FF, CR, SP, NBSP, U+1680, U+2000 to U+200A, U+2028,
  U+2029, U+202F, U+205F, U+3000 and U+FEFF.
\<close>

definition isWhiteSpace :: "code_unit \<Rightarrow> bool" where
  "isWhiteSpace c \<longleftrightarrow>
     unat c \<in> set [0x09, 0x0A, 0x0B, 0x0C, 0x0D, 0x20, 0xA0, 0x1680, 0x2028, 0x2029,
                    0x202F, 0x205F, 0x3000, 0xFEFF]
     \<or> (0x2000 \<le> unat c \<and> unat c \<le> 0x200A)"

definition trimStart :: "jsstring \<Rightarrow> jsstring" where
  "trimStart s = dropWhile isWhiteSpace s"

definition trim :: "jsstring \<Rightarrow> jsstring" where
  "trim s = rev (dropWhile isWhiteSpace (rev (dropWhile isWhiteSpace s)))"

text \<open>The digits \<open>0\<close> to \<open>9\<close> are the code units 48 to 57.\<close>

definition isDigit :: "code_unit \<Rightarrow> bool" where
  "isDigit c \<longleftrightarrow> 48 \<le> unat c \<and> unat c \<le> 57"

definition digitVal :: "code_unit \<Rightarrow> int" where
  "digitVal c = int (unat c) - 48"

definition digitsValue :: "jsstring \<Rightarrow> int" where
  "digitsValue ds = foldl (\<lambda>acc c. 10 * acc + digitVal c) 0 ds"

text \<open>
  \<^verbatim>\<open>parseInt(s, 10)\<close>: skip leading white space, read an optional sign (\<open>+\<close> is the code
  unit 43, \<open>-\<close> is 45), take the longest run of decimal digits that follows and ignore the
  rest of the string. No digit at that place gives NaN; otherwise the result is the
  double nearest to the integer the digits denote, with the sign (the runtime converts
  the digits with correct rounding).
\<close>

definition parseInt10 :: "jsstring \<Rightarrow> number" where
  "parseInt10 inputString =
     (let S = trimStart inputString;
          sign = (if S \<noteq> [] \<and> hd S = 0x2D then - 1 else 1 :: int);
          S' = (if S \<noteq> [] \<and> (hd S = 0x2B \<or> hd S = 0x2D) then tl S else S);
          Z = takeWhile isDigit S'
      in if Z = [] then NaN else to_double (sign * digitsValue Z))"

text \<open>\<^verbatim>\<open>s.split(sep)\<close> for a separator of one code unit: the empty string gives one empty segment.\<close>

fun split_on :: "code_unit \<Rightarrow> jsstring \<Rightarrow> jsstring list" where
  "split_on sep [] = [] # []"
| "split_on sep (c # cs) =
     (if c = sep then [] # split_on sep cs
      else (case split_on sep cs of
              [] \<Rightarrow> [c] # []
            | p # ps \<Rightarrow> (c # p) # ps))"

text \<open>
  \<^verbatim>\<open>parseScore\<close> (the same text in both variants); \<^verbatim>\<open>null\<close> is \<open>None\<close>, and \<open>/\<close> is
  the code unit 47.
\<close>

definition parseScore :: "jsstring \<Rightarrow> Score option" where
  "parseScore scoreStr =
     (let parts = split_on 0x2F scoreStr in
      if length parts \<noteq> 2 then None
      else
        (let runs = parseInt10 (trim (parts ! 0));
             wickets = parseInt10 (trim (parts ! 1))
         in if runs = NaN \<or> wickets = NaN then None
            else Some \<lparr>runs = runs, wickets = wickets\<rparr>))"

text \<open>\<^verbatim>\<open>scoreDifference\<close> of the baseline: the runs difference only.\<close>

definition scoreDifference_simple :: "Score \<Rightarrow> Score \<Rightarrow> number" where
  "scoreDifference_simple pred actual = num_abs (num_sub (runs pred) (runs actual))"

text \<open>\<^verbatim>\<open>scoreDifference\<close> of the advanced variant: a wicket weighs five runs.\<close>

definition scoreDifference_advanced :: "Score \<Rightarrow> Score \<Rightarrow> number" where
  "scoreDifference_advanced pred actual =
     num_add (num_abs (num_sub (runs pred) (runs actual)))
       (num_mult (Num 5) (num_abs (num_sub (wickets pred) (wickets actual))))"

fun scoreDifference :: "variant \<Rightarrow> Score \<Rightarrow> Score \<Rightarrow> number" where
  "scoreDifference Simple = scoreDifference_simple"
| "scoreDifference Advanced = scoreDifference_advanced"

section \<open>The record store\<close>

text \<open>
  The two tables of \<^verbatim>\<open>db.ts\<close>. A table is the list of its rows in the order of
  their row ids: a new row goes to the end and an updated row keeps its place.
  \<^verbatim>\<open>isOpen\<close> (0 or 1 in the store) is a \<open>bool\<close>. The field \<^verbatim>\<open>id\<close> of a match is \<open>match_id\<close> here. A prediction row carries
  \<open>runs\<close> and \<open>wickets\<close> as a score does, so it extends \<open>Score\<close>. The baseline has
  no \<^verbatim>\<open>comment\<close> column: its rows keep \<open>comment = None\<close>.
\<close>

record MatchRow =
  match_id :: string
  teamName :: string
  toss :: string
  venue :: string
  matchDate :: string
  isOpen :: bool
  actualRuns :: "number option"
  actualWickets :: "number option"

record PredictionRow = Score +
  matchId :: string
  userId :: string
  username :: string
  comment :: "string option"

text \<open>What a statement of the store can throw: a violated table constraint.\<close>

datatype error = PrimaryKeyConstraint | ForeignKeyConstraint

text \<open>
  The process: which variant runs, the allow-list \<^verbatim>\<open>ADMIN_IDS\<close>, and whether the
  connection enforces the declared foreign key of \<^verbatim>\<open>predictions.matchId\<close> (the source
  leaves this to the driver's default, so it is a parameter).
\<close>

record config =
  bot_variant :: variant
  ADMIN_IDS :: "string list"
  foreign_keys :: bool

text \<open>
  The store and the process-wide \<^verbatim>\<open>currentMatch\<close> (\<open>Some id\<close> for \<^verbatim>\<open>{ id }\<close>,
  \<open>None\<close> for \<^verbatim>\<open>null\<close>).
\<close>

record state =
  matches :: "MatchRow list"
  predictions :: "PredictionRow list"
  currentMatch :: "string option"

text \<open>\<^verbatim>\<open>insertMatch\<close>: the primary key rejects an id that is already there.\<close>

definition insertMatch ::
  "MatchRow list \<Rightarrow> string \<Rightarrow> string \<Rightarrow> string \<Rightarrow> string \<Rightarrow> string \<Rightarrow> bool
     \<Rightarrow> error + MatchRow list" where
  "insertMatch ms i team ts vn dt opn =
     (if i \<in> set (map match_id ms) then Inl PrimaryKeyConstraint
      else Inr (ms @ [\<lparr>match_id = i, teamName = team, toss = ts, venue = vn,
                       matchDate = dt, isOpen = opn,
                       actualRuns = None, actualWickets = None\<rparr>]))"

text \<open>
  The argument of \<^verbatim>\<open>updateMatch\<close>: every field but the id is optional, and an absent
  field is bound as NULL. The baseline has the first three optional fields only; its
  callers leave the other four absent.
\<close>

record MatchPatch =
  patch_id :: string
  patch_isOpen :: "bool option"
  patch_actualRuns :: "number option"
  patch_actualWickets :: "number option"
  patch_teamName :: "string option"
  patch_toss :: "string option"
  patch_venue :: "string option"
  patch_matchDate :: "string option"

text \<open>\<^verbatim>\<open>COALESCE(@x, x)\<close> on a column that is not null.\<close>

definition coalesce :: "'a option \<Rightarrow> 'a \<Rightarrow> 'a" where
  "coalesce new old = (case new of None \<Rightarrow> old | Some v \<Rightarrow> v)"

text \<open>\<^verbatim>\<open>COALESCE(@x, x)\<close> on a nullable column.\<close>

definition coalesce_null :: "'a option \<Rightarrow> 'a option \<Rightarrow> 'a option" where
  "coalesce_null new old = (case new of None \<Rightarrow> old | Some v \<Rightarrow> Some v)"

definition update_row :: "MatchPatch \<Rightarrow> MatchRow \<Rightarrow> MatchRow" where
  "update_row p m =
     m\<lparr>isOpen := coalesce (patch_isOpen p) (isOpen m),
       actualRuns := coalesce_null (patch_actualRuns p) (actualRuns m),
       actualWickets := coalesce_null (patch_actualWickets p) (actualWickets m),
       teamName := coalesce (patch_teamName p) (teamName m),
       toss := coalesce (patch_toss p) (toss m),
       venue := coalesce (patch_venue p) (venue m),
       matchDate := coalesce (patch_matchDate p) (matchDate m)\<rparr>"

definition updateMatch :: "MatchRow list \<Rightarrow> MatchPatch \<Rightarrow> MatchRow list" where
  "updateMatch ms p = map (\<lambda>m. if match_id m = patch_id p then update_row p m else m) ms"

definition same_key :: "PredictionRow \<Rightarrow> PredictionRow \<Rightarrow> bool" where
  "same_key p q \<longleftrightarrow> matchId p = matchId q \<and> userId p = userId q"

text \<open>The \<^verbatim>\<open>DO UPDATE SET\<close> clause; the baseline has no comment to set.\<close>

definition overwrite :: "variant \<Rightarrow> PredictionRow \<Rightarrow> PredictionRow \<Rightarrow> PredictionRow" where
  "overwrite v p old =
     (case v of
        Simple \<Rightarrow> old\<lparr>username := username p, runs := runs p, wickets := wickets p\<rparr>
      | Advanced \<Rightarrow> old\<lparr>username := username p, runs := runs p, wickets := wickets p,
                        comment := comment p\<rparr>)"

text \<open>The row of the \<^verbatim>\<open>INSERT\<close>; the baseline names no comment column.\<close>

definition fresh_row :: "variant \<Rightarrow> PredictionRow \<Rightarrow> PredictionRow" where
  "fresh_row v p = (case v of Simple \<Rightarrow> p\<lparr>comment := None\<rparr> | Advanced \<Rightarrow> p)"

text \<open>
  \<^verbatim>\<open>insertOrUpdatePrediction\<close>: on a conflict of \<open>(matchId, userId)\<close> the row is
  overwritten in place (its key columns are not written, so no foreign key is checked);
  otherwise the row is inserted, which an enforced foreign key rejects when no match has
  that id.
\<close>

definition insertOrUpdatePrediction ::
  "config \<Rightarrow> MatchRow list \<Rightarrow> PredictionRow list \<Rightarrow> PredictionRow
     \<Rightarrow> error + PredictionRow list" where
  "insertOrUpdatePrediction cfg ms ps p =
     (if \<exists>q \<in> set ps. same_key q p
      then Inr (map (\<lambda>q. if same_key q p then overwrite (bot_variant cfg) p q else q) ps)
      else if foreign_keys cfg \<and> matchId p \<notin> set (map match_id ms)
      then Inl ForeignKeyConstraint
      else Inr (ps @ [fresh_row (bot_variant cfg) p]))"

text \<open>
  \<^verbatim>\<open>getPredictionsForMatch\<close>. The store answers
  \<^verbatim>\<open>SELECT * FROM predictions WHERE matchId = ?\<close> from the index of the primary key
  \<open>(matchId, userId)\<close>, so the rows of the match come in ascending order of
  \<^verbatim>\<open>userId\<close>, compared byte by byte.
\<close>

definition getPredictionsForMatch :: "PredictionRow list \<Rightarrow> string \<Rightarrow> PredictionRow list" where
  "getPredictionsForMatch ps i = sort_key userId (filter (\<lambda>p. matchId p = i) ps)"

definition getMatchDetails ::
  "state \<Rightarrow> string \<Rightarrow> (MatchRow \<times> PredictionRow list) option" where
  "getMatchDetails s i =
     (case find (\<lambda>m. match_id m = i) (matches s) of
        None \<Rightarrow> None
      | Some m \<Rightarrow> Some (m, getPredictionsForMatch (predictions s) i))"

text \<open>
  \<^verbatim>\<open>deleteMatch\<close> (advanced variant only): the predictions go first, so the deletion of
  the match never meets a referencing row.
\<close>

definition deleteMatch :: "state \<Rightarrow> string \<Rightarrow> state" where
  "deleteMatch s i =
     s\<lparr>predictions := filter (\<lambda>p. matchId p \<noteq> i) (predictions s),
       matches := filter (\<lambda>m. match_id m \<noteq> i) (matches s)\<rparr>"

section \<open>The command handlers\<close>

text \<open>
  The quotient of a number by a positive count, as \<^verbatim>\<open>mystats\<close> forms it for its reply:
  the exact fraction when the number is finite (the double nearest to it is what the code
  holds and prints with two decimals), and else the infinity or NaN that the division
  gives.
\<close>

datatype quotient = Ratio rat | QPosInf | QNegInf | QNaN

fun num_div_count :: "number \<Rightarrow> nat \<Rightarrow> quotient" where
  "num_div_count (Num t) n = Ratio (of_int t / of_nat n)"
| "num_div_count PosInf n = QPosInf"
| "num_div_count NegInf n = QNegInf"
| "num_div_count NaN n = QNaN"

text \<open>
  A handler is a function from the state before an interaction to its outcome and the
  state after it. Interactions are handled one at a time, each to its end, and sending a
  reply does not fail: the \<^verbatim>\<open>await\<close> of a reply is not a step of the model. When a
  statement of the store throws, the handler ends there, with the state as the exception
  left it; what the host does with the rejected promise is outside the model.

  One constructor for each reply text of the handlers; the constructor's arguments are
  the values the text interpolates.
\<close>

datatype reply =
    OnlyAdminsSetup           \<comment> \<open>Only admins can setup a match.\<close>
  | AlreadyRunning            \<comment> \<open>A match is already running. End it before starting a new one.\<close>
  | SetupComplete string      \<comment> \<open>Match setup complete with ID: ...\<close>
  | NoActiveMatchPredict      \<comment> \<open>No active match for predictions.\<close>
  | NoActiveMatchEdit         \<comment> \<open>No active match to edit prediction.\<close>
  | InvalidScoreFormat        \<comment> \<open>Invalid score format. Use runs/wickets (e.g., ...).\<close>
  | PredictionSaved jsstring string    \<comment> \<open>Prediction saved: score, comment\<close>
  | PredictionUpdated jsstring string  \<comment> \<open>Prediction updated: score, comment\<close>
  | OnlyAdminsClose           \<comment> \<open>Only admins can close the poll.\<close>
  | NoActiveMatchClose        \<comment> \<open>No active match to close.\<close>
  | PollClosed                \<comment> \<open>Poll closed. No further predictions will be accepted.\<close>
  | NoActiveMatchList         \<comment> \<open>No active match.\<close>
  | CurrentPredictions "PredictionRow list"  \<comment> \<open>Current predictions: ...\<close>
  | OnlyAdminsEnd             \<comment> \<open>Only admins can end the match.\<close>
  | NoActiveMatchEnd          \<comment> \<open>No active match to end.\<close>
  | MatchResult Score "PredictionRow option"
      \<comment> \<open>Actual score: ...; then the winner, or: No predictions were made.\<close>
  | MatchIdNotFound           \<comment> \<open>Match ID not found.\<close>
  | MatchDetails MatchRow "PredictionRow list"
  | OnlyAdminsEditMatch       \<comment> \<open>Only admins can edit match details.\<close>
  | NoActiveMatchEditMatch    \<comment> \<open>No active match to edit.\<close>
  | MatchDetailsUpdated       \<comment> \<open>Match details updated.\<close>
  | OnlyAdminsCancel          \<comment> \<open>Only admins can cancel a match.\<close>
  | NoActiveMatchCancel       \<comment> \<open>No active match to cancel.\<close>
  | MatchCancelled            \<comment> \<open>The current match has been cancelled and removed.\<close>
  | NoPastPredictions         \<comment> \<open>You have no past predictions.\<close>
  | MyStats nat quotient
      \<comment> \<open>You made n predictions with an average error of ... (two decimals)\<close>
  | NoLeaderboardData         \<comment> \<open>No prediction data available for leaderboard.\<close>
  | Leaderboard "(string \<times> rat) list"  \<comment> \<open>the ranked lines: username, avgError\<close>
  | UnknownCommand            \<comment> \<open>Unknown command.\<close>

text \<open>A handler either replies or is left by an exception of the store.\<close>

datatype outcome = Reply reply | Threw error

definition isAdmin :: "config \<Rightarrow> string \<Rightarrow> bool" where
  "isAdmin cfg uid \<longleftrightarrow> uid \<in> set (ADMIN_IDS cfg)"

text \<open>
  \<^verbatim>\<open>case 'setup'\<close>. The argument \<open>now\<close> is \<^verbatim>\<open>Date.now().toString()\<close>, the id of
  the new match. When \<^verbatim>\<open>insertMatch\<close> throws, \<^verbatim>\<open>currentMatch\<close> is not assigned.
\<close>

definition setup_cmd ::
  "config \<Rightarrow> state \<Rightarrow> string \<Rightarrow> string \<Rightarrow> string \<Rightarrow> string \<Rightarrow> string \<Rightarrow> string
     \<Rightarrow> outcome \<times> state" where
  "setup_cmd cfg s uid now team ts vn dt =
     (if \<not> isAdmin cfg uid then (Reply OnlyAdminsSetup, s)
      else if currentMatch s \<noteq> None then (Reply AlreadyRunning, s)
      else
        (case insertMatch (matches s) now team ts vn dt True of
           Inl e \<Rightarrow> (Threw e, s)
         | Inr ms \<Rightarrow> (Reply (SetupComplete now), s\<lparr>matches := ms, currentMatch := Some now\<rparr>)))"

text \<open>
  The comment option of \<^verbatim>\<open>predict\<close> and \<^verbatim>\<open>edit\<close>:
  \<^verbatim>\<open>interaction.options.getString('comment') || ''\<close> in the advanced variant; the
  baseline has no such option and passes no comment to the store.
\<close>

definition comment_text :: "config \<Rightarrow> string option \<Rightarrow> string" where
  "comment_text cfg c =
     (case bot_variant cfg of
        Simple \<Rightarrow> []
      | Advanced \<Rightarrow> (case c of None \<Rightarrow> [] | Some t \<Rightarrow> t))"

definition comment_arg :: "config \<Rightarrow> string option \<Rightarrow> string option" where
  "comment_arg cfg c =
     (case bot_variant cfg of
        Simple \<Rightarrow> None
      | Advanced \<Rightarrow> Some (comment_text cfg c))"

text \<open>\<^verbatim>\<open>case 'predict'\<close>.\<close>

definition predict_cmd ::
  "config \<Rightarrow> state \<Rightarrow> string \<Rightarrow> string \<Rightarrow> jsstring \<Rightarrow> string option \<Rightarrow> outcome \<times> state" where
  "predict_cmd cfg s uid uname scoreStr c =
     (case currentMatch s of
        None \<Rightarrow> (Reply NoActiveMatchPredict, s)
      | Some cur \<Rightarrow>
          (case parseScore scoreStr of
             None \<Rightarrow> (Reply InvalidScoreFormat, s)
           | Some score \<Rightarrow>
               (case insertOrUpdatePrediction cfg (matches s) (predictions s)
                       \<lparr>runs = runs score, wickets = wickets score, matchId = cur,
                        userId = uid, username = uname, comment = comment_arg cfg c\<rparr> of
                  Inl e \<Rightarrow> (Threw e, s)
                | Inr ps \<Rightarrow>
                    (Reply (PredictionSaved scoreStr (comment_text cfg c)),
                     s\<lparr>predictions := ps\<rparr>))))"

text \<open>\<^verbatim>\<open>case 'edit'\<close>.\<close>

definition edit_cmd ::
  "config \<Rightarrow> state \<Rightarrow> string \<Rightarrow> string \<Rightarrow> jsstring \<Rightarrow> string option \<Rightarrow> outcome \<times> state" where
  "edit_cmd cfg s uid uname scoreStr c =
     (case currentMatch s of
        None \<Rightarrow> (Reply NoActiveMatchEdit, s)
      | Some cur \<Rightarrow>
          (case parseScore scoreStr of
             None \<Rightarrow> (Reply InvalidScoreFormat, s)
           | Some score \<Rightarrow>
               (case insertOrUpdatePrediction cfg (matches s) (predictions s)
                       \<lparr>runs = runs score, wickets = wickets score, matchId = cur,
                        userId = uid, username = uname, comment = comment_arg cfg c\<rparr> of
                  Inl e \<Rightarrow> (Threw e, s)
                | Inr ps \<Rightarrow>
                    (Reply (PredictionUpdated scoreStr (comment_text cfg c)),
                     s\<lparr>predictions := ps\<rparr>))))"

definition no_patch :: "string \<Rightarrow> MatchPatch" where
  "no_patch i =
     \<lparr>patch_id = i, patch_isOpen = None, patch_actualRuns = None,
      patch_actualWickets = None, patch_teamName = None, patch_toss = None,
      patch_venue = None, patch_matchDate = None\<rparr>"

text \<open>\<^verbatim>\<open>case 'close'\<close>.\<close>

definition close_cmd :: "config \<Rightarrow> state \<Rightarrow> string \<Rightarrow> outcome \<times> state" where
  "close_cmd cfg s uid =
     (if \<not> isAdmin cfg uid then (Reply OnlyAdminsClose, s)
      else
        (case currentMatch s of
           None \<Rightarrow> (Reply NoActiveMatchClose, s)
         | Some cur \<Rightarrow>
             (Reply PollClosed,
              s\<lparr>matches := updateMatch (matches s) ((no_patch cur)\<lparr>patch_isOpen := Some False\<rparr>)\<rparr>)))"

text \<open>\<^verbatim>\<open>case 'list'\<close>.\<close>

definition list_cmd :: "state \<Rightarrow> reply" where
  "list_cmd s =
     (case currentMatch s of
        None \<Rightarrow> NoActiveMatchList
      | Some cur \<Rightarrow> CurrentPredictions (getPredictionsForMatch (predictions s) cur))"

text \<open>
  The loop of \<^verbatim>\<open>case 'end'\<close> over the predictions, on the pair
  \<open>(winner, bestDiff)\<close>; \<open>distance\<close> is the variant's \<^verbatim>\<open>scoreDifference\<close>.
\<close>

fun winner_loop ::
  "(Score \<Rightarrow> Score \<Rightarrow> number) \<Rightarrow> Score \<Rightarrow> PredictionRow list
     \<Rightarrow> PredictionRow option \<times> number \<Rightarrow> PredictionRow option \<times> number" where
  "winner_loop distance actualScore [] (winner, bestDiff) = (winner, bestDiff)"
| "winner_loop distance actualScore (pred # rest) (winner, bestDiff) =
     (let diff = distance \<lparr>runs = runs pred, wickets = wickets pred\<rparr> actualScore in
      if num_less diff bestDiff
      then winner_loop distance actualScore rest (Some pred, diff)
      else winner_loop distance actualScore rest (winner, bestDiff))"

text \<open>\<^verbatim>\<open>winner\<close> starts as \<^verbatim>\<open>null\<close> and \<^verbatim>\<open>bestDiff\<close> as \<^verbatim>\<open>Infinity\<close>.\<close>

definition find_winner :: "variant \<Rightarrow> Score \<Rightarrow> PredictionRow list \<Rightarrow> PredictionRow option" where
  "find_winner v actualScore preds =
     fst (winner_loop (scoreDifference v) actualScore preds (None, PosInf))"

text \<open>\<^verbatim>\<open>case 'end'\<close>.\<close>

definition end_cmd :: "config \<Rightarrow> state \<Rightarrow> string \<Rightarrow> jsstring \<Rightarrow> outcome \<times> state" where
  "end_cmd cfg s uid scoreStr =
     (if \<not> isAdmin cfg uid then (Reply OnlyAdminsEnd, s)
      else
        (case currentMatch s of
           None \<Rightarrow> (Reply NoActiveMatchEnd, s)
         | Some cur \<Rightarrow>
             (case parseScore scoreStr of
                None \<Rightarrow> (Reply InvalidScoreFormat, s)
              | Some actualScore \<Rightarrow>
                  (let ms = updateMatch (matches s)
                              ((no_patch cur)\<lparr>patch_isOpen := Some False,
                                 patch_actualRuns := Some (runs actualScore),
                                 patch_actualWickets := Some (wickets actualScore)\<rparr>);
                       preds = getPredictionsForMatch (predictions s) cur;
                       winner = find_winner (bot_variant cfg) actualScore preds
                   in (Reply (MatchResult actualScore winner),
                       s\<lparr>matches := ms, currentMatch := None\<rparr>)))))"

text \<open>\<^verbatim>\<open>case 'details'\<close>.\<close>

definition details_cmd :: "state \<Rightarrow> string \<Rightarrow> reply" where
  "details_cmd s i =
     (case getMatchDetails s i of
        None \<Rightarrow> MatchIdNotFound
      | Some (m, preds) \<Rightarrow> MatchDetails m preds)"

text \<open>
  \<^verbatim>\<open>case 'editmatch'\<close> (advanced variant): \<^verbatim>\<open>team || undefined\<close> turns an absent
  option and the empty string into an absent field.
\<close>

definition or_undefined :: "string option \<Rightarrow> string option" where
  "or_undefined x = (case x of None \<Rightarrow> None | Some t \<Rightarrow> (if t = [] then None else Some t))"

definition editmatch_cmd ::
  "config \<Rightarrow> state \<Rightarrow> string \<Rightarrow> string option \<Rightarrow> string option \<Rightarrow> string option
     \<Rightarrow> string option \<Rightarrow> outcome \<times> state" where
  "editmatch_cmd cfg s uid team ts vn dt =
     (if \<not> isAdmin cfg uid then (Reply OnlyAdminsEditMatch, s)
      else
        (case currentMatch s of
           None \<Rightarrow> (Reply NoActiveMatchEditMatch, s)
         | Some cur \<Rightarrow>
             (Reply MatchDetailsUpdated,
              s\<lparr>matches := updateMatch (matches s)
                   ((no_patch cur)\<lparr>patch_teamName := or_undefined team,
                      patch_toss := or_undefined ts,
                      patch_venue := or_undefined vn,
                      patch_matchDate := or_undefined dt\<rparr>)\<rparr>)))"

text \<open>\<^verbatim>\<open>case 'cancelmatch'\<close> (advanced variant).\<close>

definition cancelmatch_cmd :: "config \<Rightarrow> state \<Rightarrow> string \<Rightarrow> outcome \<times> state" where
  "cancelmatch_cmd cfg s uid =
     (if \<not> isAdmin cfg uid then (Reply OnlyAdminsCancel, s)
      else
        (case currentMatch s of
           None \<Rightarrow> (Reply NoActiveMatchCancel, s)
         | Some cur \<Rightarrow> (Reply MatchCancelled, (deleteMatch s cur)\<lparr>currentMatch := None\<rparr>)))"

section \<open>Aggregate statistics (advanced variant)\<close>

text \<open>
  A prediction joined with the actual score of its match
  (\<^verbatim>\<open>PredictionWithMatch\<close>; its two added fields are \<^verbatim>\<open>actualRuns\<close> and
  \<^verbatim>\<open>actualWickets\<close> in the source).
\<close>

record PredictionWithMatch = PredictionRow +
  joined_actualRuns :: number
  joined_actualWickets :: number

text \<open>
  The \<^verbatim>\<open>JOIN\<close> of both statistics queries: every prediction with the match of its
  \<^verbatim>\<open>matchId\<close>, where that match is closed and has both actual values. Rows come in the
  order of the predictions table.
\<close>

definition join_row :: "PredictionRow \<Rightarrow> MatchRow \<Rightarrow> PredictionWithMatch list" where
  "join_row p m =
     (if matchId p = match_id m \<and> \<not> isOpen m
      then (case (actualRuns m, actualWickets m) of
              (Some ar, Some aw) \<Rightarrow>
                [\<lparr>runs = runs p, wickets = wickets p, matchId = matchId p,
                  userId = userId p, username = username p, comment = comment p,
                  joined_actualRuns = ar, joined_actualWickets = aw\<rparr>]
            | _ \<Rightarrow> [])
      else [])"

definition joined_rows :: "state \<Rightarrow> PredictionWithMatch list" where
  "joined_rows s = concat (map (\<lambda>p. concat (map (join_row p) (matches s))) (predictions s))"

text \<open>\<^verbatim>\<open>getUserStats\<close>.\<close>

definition getUserStats :: "state \<Rightarrow> string \<Rightarrow> PredictionWithMatch list" where
  "getUserStats s uid = filter (\<lambda>r. userId r = uid) (joined_rows s)"

text \<open>
  The grouping loop of \<^verbatim>\<open>getAllUserStats\<close>. The object \<^verbatim>\<open>grouped\<close> is the list of its
  own properties in creation order: user id, then username and predictions. User ids are
  platform ids (decimal strings), never the name of a member of \<^verbatim>\<open>Object.prototype\<close>,
  so \<^verbatim>\<open>grouped[row.userId]\<close> is undefined exactly when the object has no such property.
  The query does not select \<^verbatim>\<open>matchId\<close>; the rows here keep it and nothing reads it.
\<close>

fun push_row ::
  "PredictionWithMatch \<Rightarrow> (string \<times> string \<times> PredictionWithMatch list) list
     \<Rightarrow> (string \<times> string \<times> PredictionWithMatch list) list" where
  "push_row row [] = [(userId row, username row, [row])]"
| "push_row row ((k, n, rs) # grouped) =
     (if k = userId row then (k, n, rs @ [row]) # grouped
      else (k, n, rs) # push_row row grouped)"

definition group_rows ::
  "PredictionWithMatch list \<Rightarrow> (string \<times> string \<times> PredictionWithMatch list) list" where
  "group_rows rows = foldl (\<lambda>grouped row. push_row row grouped) [] rows"

text \<open>
  \<^verbatim>\<open>Object.entries\<close> lists the keys that are array indices (canonical decimal numerals
  below \<open>2^32 - 1\<close>) first, in ascending numeric order, and then the other keys in
  creation order.
\<close>

definition is_array_index :: "string \<Rightarrow> bool" where
  "is_array_index k \<longleftrightarrow>
     k \<noteq> [] \<and> list_all isDigit (utf16 k) \<and> (k = ''0'' \<or> hd k \<noteq> CHR ''0'')
     \<and> digitsValue (utf16 k) < 4294967295"

definition object_entries :: "(string \<times> 'a) list \<Rightarrow> (string \<times> 'a) list" where
  "object_entries obj =
     sort_key (\<lambda>e. digitsValue (utf16 (fst e))) (filter (\<lambda>e. is_array_index (fst e)) obj)
     @ filter (\<lambda>e. \<not> is_array_index (fst e)) obj"

text \<open>\<^verbatim>\<open>getAllUserStats\<close>.\<close>

definition getAllUserStats ::
  "state \<Rightarrow> (string \<times> string \<times> PredictionWithMatch list) list" where
  "getAllUserStats s = object_entries (group_rows (joined_rows s))"

text \<open>
  \<^verbatim>\<open>case 'mystats'\<close>: the loop adds the differences up, starting from 0, and the
  reply gives the number of predictions and the total divided by that number.
\<close>

definition totalDiff :: "PredictionWithMatch list \<Rightarrow> number" where
  "totalDiff stats =
     foldl (\<lambda>total stat. num_add total
              (scoreDifference_advanced \<lparr>runs = runs stat, wickets = wickets stat\<rparr>
                 \<lparr>runs = joined_actualRuns stat, wickets = joined_actualWickets stat\<rparr>))
       (Num 0) stats"

definition mystats_cmd :: "state \<Rightarrow> string \<Rightarrow> reply" where
  "mystats_cmd s uid =
     (let stats = getUserStats s uid in
      if stats = [] then NoPastPredictions
      else MyStats (length stats) (num_div_count (totalDiff stats) (length stats)))"

text \<open>
  \<^verbatim>\<open>case 'leaderboard'\<close>. The handler reads no score: for the user at index \<open>i\<close> of
  \<^verbatim>\<open>userStats\<close> it takes \<^verbatim>\<open>Math.random() * 50\<close>, the loop over the user's predictions
  adding 0 to a total that is not used. \<open>random i\<close> is the value of the \<open>i\<close>-th call of
  \<^verbatim>\<open>Math.random\<close>, a number in \<open>[0, 1)\<close>. \<^verbatim>\<open>Array.prototype.sort\<close> is stable.
\<close>

definition leaderboard_cmd :: "state \<Rightarrow> (nat \<Rightarrow> rat) \<Rightarrow> reply" where
  "leaderboard_cmd s random =
     (let userStats = getAllUserStats s in
      if userStats = [] then NoLeaderboardData
      else
        (let leaderboard =
               map (\<lambda>(i, user). (fst (snd user), random i * 50)) (enumerate 0 userStats)
         in Leaderboard (sort_key snd leaderboard)))"

text \<open>
  The commands that write to the store or to \<^verbatim>\<open>currentMatch\<close>, with their options.
  \<open>Setup\<close> carries the clock reading as its first argument.
\<close>

datatype command =
    Setup string string string string string
  | Predict jsstring "string option"
  | Edit jsstring "string option"
  | Close
  | End jsstring
  | EditMatch "string option" "string option" "string option" "string option"
  | CancelMatch

text \<open>
  The \<^verbatim>\<open>switch\<close> of the \<^verbatim>\<open>interactionCreate\<close> handler for a user with id \<open>uid\<close> and
  name \<open>uname\<close>. The baseline has no \<^verbatim>\<open>editmatch\<close> and no \<^verbatim>\<open>cancelmatch\<close> case: they
  fall to \<^verbatim>\<open>default\<close>.
\<close>

fun handle :: "config \<Rightarrow> state \<Rightarrow> string \<times> string \<times> command \<Rightarrow> outcome \<times> state" where
  "handle cfg s (uid, uname, Setup now team ts vn dt) = setup_cmd cfg s uid now team ts vn dt"
| "handle cfg s (uid, uname, Predict scoreStr c) = predict_cmd cfg s uid uname scoreStr c"
| "handle cfg s (uid, uname, Edit scoreStr c) = edit_cmd cfg s uid uname scoreStr c"
| "handle cfg s (uid, uname, Close) = close_cmd cfg s uid"
| "handle cfg s (uid, uname, End scoreStr) = end_cmd cfg s uid scoreStr"
| "handle cfg s (uid, uname, EditMatch team ts vn dt) =
     (case bot_variant cfg of
        Simple \<Rightarrow> (Reply UnknownCommand, s)
      | Advanced \<Rightarrow> editmatch_cmd cfg s uid team ts vn dt)"
| "handle cfg s (uid, uname, CancelMatch) =
     (case bot_variant cfg of
        Simple \<Rightarrow> (Reply UnknownCommand, s)
      | Advanced \<Rightarrow> cancelmatch_cmd cfg s uid)"

text \<open>The process starts with an empty store and no current match.\<close>

definition init_state :: state where
  "init_state = \<lparr>matches = [], predictions = [], currentMatch = None\<rparr>"

text \<open>The state after a sequence of interactions, handled one at a time.\<close>

fun run :: "config \<Rightarrow> state \<Rightarrow> (string \<times> string \<times> command) list \<Rightarrow> state" where
  "run cfg s [] = s"
| "run cfg s (e # es) = run cfg (snd (handle cfg s e)) es"

section \<open>Notions used in the statements\<close>

text \<open>The primary key of a prediction row.\<close>

definition pred_key :: "PredictionRow \<Rightarrow> string \<times> string" where
  "pred_key p = (matchId p, userId p)"


text \<open>
  The invariant of the process: match ids and prediction keys are unique, the current
  match has its row, and no other match is open.
\<close>

definition state_inv :: "state \<Rightarrow> bool" where
  "state_inv s \<longleftrightarrow>
     distinct (map match_id (matches s)) \<and>
     distinct (map pred_key (predictions s)) \<and>
     (case currentMatch s of
        None \<Rightarrow> \<forall>m \<in> set (matches s). \<not> isOpen m
      | Some cur \<Rightarrow> cur \<in> set (map match_id (matches s)) \<and>
                    (\<forall>m \<in> set (matches s). isOpen m \<longrightarrow> match_id m = cur))"

text \<open>Sample data: a configuration with one administrator, and three predictions.\<close>

definition sample_cfg :: "variant \<Rightarrow> config" where
  "sample_cfg v = \<lparr>bot_variant = v, ADMIN_IDS = [''900''], foreign_keys = True\<rparr>"

definition sample_match :: MatchRow where
  "sample_match =
     \<lparr>match_id = ''1700000000000'', teamName = ''Lions'', toss = ''Batting first'',
      venue = ''Pune'', matchDate = ''2025-03-01'', isOpen = True,
      actualRuns = None, actualWickets = None\<rparr>"

definition sample_pred :: "string \<Rightarrow> string \<Rightarrow> int \<Rightarrow> int \<Rightarrow> PredictionRow" where
  "sample_pred uid uname r w =
     \<lparr>runs = Num r, wickets = Num w, matchId = ''1700000000000'', userId = uid,
      username = uname, comment = None\<rparr>"

definition sample_state :: state where
  "sample_state =
     \<lparr>matches = [sample_match],
      predictions = [sample_pred ''101'' ''asha'' 180 5, sample_pred ''102'' ''ben'' 175 6,
                     sample_pred ''103'' ''cy'' 176 5],
      currentMatch = Some ''1700000000000''\<rparr>"

text \<open>
  The reply of \<^verbatim>\<open>edit\<close> that corresponds to a reply of \<^verbatim>\<open>predict\<close>: two texts
  differ in their wording, every other outcome is the same.
\<close>

fun as_edit :: "outcome \<Rightarrow> outcome" where
  "as_edit (Reply NoActiveMatchPredict) = Reply NoActiveMatchEdit"
| "as_edit (Reply (PredictionSaved t c)) = Reply (PredictionUpdated t c)"
| "as_edit x = x"

text \<open>An interaction that is neither \<^verbatim>\<open>end\<close> nor \<^verbatim>\<open>cancelmatch\<close>.\<close>

fun keeps_match :: "string \<times> string \<times> command \<Rightarrow> bool" where
  "keeps_match (uid, uname, End t) = False"
| "keeps_match (uid, uname, CancelMatch) = False"
| "keeps_match (uid, uname, c) = True"

text \<open>A sample session: a set-up by the administrator and two predictions.\<close>

definition sample_events :: "(string \<times> string \<times> command) list" where
  "sample_events =
     [(''900'', ''admin'', Setup ''1700000000000'' ''Lions'' ''Batting first'' ''Pune'' ''2025-03-01''),
      (''101'', ''asha'', Predict (utf16 ''180/5'') None),
      (''102'', ''ben'', Predict (utf16 ''175/6'') (Some ''tight game''))]"

text \<open>
  The two readings of "parses as a base-10 integer". The first is the plain one: the
  text is an optional sign followed by one or more decimal digits, and nothing else.
\<close>

definition is_base10_integer :: "jsstring \<Rightarrow> bool" where
  "is_base10_integer s \<longleftrightarrow>
     (let body = (case s of
                    [] \<Rightarrow> []
                  | c # cs \<Rightarrow> if c = 0x2B \<or> c = 0x2D then cs else s)
      in body \<noteq> [] \<and> list_all isDigit body)"

text \<open>
  The second is what \<^verbatim>\<open>parseInt\<close> accepts: the text begins, after optional white
  space, with an optional sign and one or more decimal digits; \<open>n\<close> is the double nearest
  to the value of the longest such run of digits with the sign applied, and the text after
  it is arbitrary.
\<close>

definition leading_int :: "jsstring \<Rightarrow> number \<Rightarrow> bool" where
  "leading_int seg n \<longleftrightarrow>
     (\<exists>ws sg ds rest.
        seg = ws @ sg @ ds @ rest \<and> list_all isWhiteSpace ws
        \<and> (sg = [] \<or> sg = [0x2B] \<or> sg = [0x2D])
        \<and> ds \<noteq> [] \<and> list_all isDigit ds \<and> takeWhile isDigit rest = []
        \<and> n = to_double (if sg = [0x2D] then - digitsValue ds else digitsValue ds))"

text \<open>
  A finished match with two predictions, 204/4 at distance 4 and 202/4 at distance 2 from
  the actual score 200/4, and two values of \<^verbatim>\<open>Math.random\<close>.
\<close>

definition finished_events :: "(string \<times> string \<times> command) list" where
  "finished_events =
     [(''900'', ''admin'', Setup ''1700000000000'' ''Lions'' ''Batting first'' ''Pune'' ''2025-03-01''),
      (''101'', ''asha'', Predict (utf16 ''204/4'') None),
      (''102'', ''ben'', Predict (utf16 ''202/4'') None),
      (''900'', ''admin'', End (utf16 ''200/4''))]"

definition sample_random :: "nat \<Rightarrow> rat" where
  "sample_random i = (if i = 0 then 1 / 10 else 4 / 5)"






section \<open>Facts about numbers, and rules for evaluating samples\<close>

lemma to_double_small: "\<bar>m\<bar> < 2 ^ 53 \<Longrightarrow> to_double m = Num m"
  by (simp add: to_double_def)

lemma to_double_not_NaN [simp]: "to_double m \<noteq> NaN"
  by (simp add: to_double_def Let_def)









lemmas parse_eval = utf16_def parseScore_def parseInt10_def trim_def trimStart_def
  isWhiteSpace_def isDigit_def digitsValue_def digitVal_def Let_def to_double_small

lemmas handler_eval = setup_cmd_def predict_cmd_def edit_cmd_def close_cmd_def end_cmd_def
  cancelmatch_cmd_def editmatch_cmd_def insertMatch_def insertOrUpdatePrediction_def
  updateMatch_def update_row_def coalesce_def coalesce_null_def no_patch_def
  getPredictionsForMatch_def same_key_def overwrite_def fresh_row_def
  comment_arg_def comment_text_def isAdmin_def deleteMatch_def find_winner_def
  scoreDifference_simple_def scoreDifference_advanced_def

lemmas sample_eval = sample_cfg_def sample_state_def sample_match_def sample_pred_def
  sample_events_def init_state_def





section \<open>The scoring function\<close>




section \<open>Winner resolution\<close>








section \<open>The invariant of the process\<close>

lemma same_key_iff: "same_key q p \<longleftrightarrow> pred_key q = pred_key p"
  by (simp add: same_key_def pred_key_def)

lemma pred_key_overwrite [simp]: "pred_key (overwrite v p q) = pred_key q"
  by (cases v) (simp_all add: overwrite_def pred_key_def)

lemma pred_key_fresh_row [simp]: "pred_key (fresh_row v p) = pred_key p"
  by (cases v) (simp_all add: fresh_row_def pred_key_def)

lemma match_id_update_row [simp]: "match_id (update_row p m) = match_id m"
  by (simp add: update_row_def)

lemma map_match_id_updateMatch [simp]: "map match_id (updateMatch ms p) = map match_id ms"
  by (induction ms) (simp_all add: updateMatch_def)

lemma length_updateMatch [simp]: "length (updateMatch ms p) = length ms"
  by (simp add: updateMatch_def)

lemma nth_updateMatch:
  "i < length ms \<Longrightarrow>
   updateMatch ms p ! i = (if match_id (ms ! i) = patch_id p then update_row p (ms ! i) else ms ! i)"
  by (simp add: updateMatch_def)

lemma isOpen_updateMatch:
  assumes "m' \<in> set (updateMatch ms p)" and "isOpen m'" and "patch_isOpen p \<noteq> Some True"
  shows "\<exists>m \<in> set ms. match_id m = match_id m' \<and> isOpen m"
proof -
  from assms(1) obtain m where m: "m \<in> set ms"
    and m': "m' = (if match_id m = patch_id p then update_row p m else m)"
    by (auto simp: updateMatch_def)
  have "isOpen m" using assms(2,3) m'
    by (cases "patch_isOpen p") (auto simp: update_row_def coalesce_def split: if_splits)
  moreover have "match_id m = match_id m'" using m' by simp
  ultimately show ?thesis using m by blast
qed

lemma closed_updateMatch:
  assumes "m' \<in> set (updateMatch ms p)" and "match_id m' = patch_id p"
    and "patch_isOpen p = Some False"
  shows "\<not> isOpen m'"
proof -
  from assms(1) obtain m where "m \<in> set ms"
    and m': "m' = (if match_id m = patch_id p then update_row p m else m)"
    by (auto simp: updateMatch_def)
  then show ?thesis using assms(2,3)
    by (auto simp: update_row_def coalesce_def split: if_splits)
qed

lemma upsert_keys:
  assumes "insertOrUpdatePrediction cfg ms ps p = Inr ps'"
  shows "map pred_key ps' = (if pred_key p \<in> set (map pred_key ps) then map pred_key ps
                             else map pred_key ps @ [pred_key p])"
proof (cases "\<exists>q \<in> set ps. same_key q p")
  case True
  then have "ps' = map (\<lambda>q. if same_key q p then overwrite (bot_variant cfg) p q else q) ps"
    using assms by (simp add: insertOrUpdatePrediction_def)
  moreover have "pred_key p \<in> set (map pred_key ps)"
    using True unfolding same_key_iff set_map by (metis imageI)
  ultimately show ?thesis by (simp add: comp_def if_distrib cong: if_cong)
next
  case False
  then have "ps' = ps @ [fresh_row (bot_variant cfg) p]"
    using assms by (simp add: insertOrUpdatePrediction_def split: if_splits)
  moreover have "pred_key p \<notin> set (map pred_key ps)"
    using False by (auto simp: same_key_iff)
  ultimately show ?thesis by simp
qed

lemma upsert_distinct:
  assumes "insertOrUpdatePrediction cfg ms ps p = Inr ps'" and "distinct (map pred_key ps)"
  shows "distinct (map pred_key ps')"
  using assms(2) by (simp add: upsert_keys [OF assms(1)])

lemma no_patch_simps [simp]:
  "patch_id (no_patch i) = i" "patch_isOpen (no_patch i) = None"
  by (simp_all add: no_patch_def)

lemma setup_inv: "state_inv s \<Longrightarrow> state_inv (snd (setup_cmd cfg s uid now team ts vn dt))"
  by (auto simp: setup_cmd_def state_inv_def insertMatch_def split: option.splits)

lemma predict_inv: "state_inv s \<Longrightarrow> state_inv (snd (predict_cmd cfg s uid uname t c))"
  by (auto simp: predict_cmd_def state_inv_def split: option.splits sum.splits
           dest: upsert_distinct)

lemma edit_inv: "state_inv s \<Longrightarrow> state_inv (snd (edit_cmd cfg s uid uname t c))"
  by (auto simp: edit_cmd_def state_inv_def split: option.splits sum.splits
           dest: upsert_distinct)

lemma close_inv: "state_inv s \<Longrightarrow> state_inv (snd (close_cmd cfg s uid))"
  unfolding close_cmd_def state_inv_def
  by (auto split: option.splits dest!: isOpen_updateMatch)

lemma editmatch_inv: "state_inv s \<Longrightarrow> state_inv (snd (editmatch_cmd cfg s uid a b c d))"
  unfolding editmatch_cmd_def state_inv_def
  by (auto split: option.splits dest!: isOpen_updateMatch)

lemma end_inv: "state_inv s \<Longrightarrow> state_inv (snd (end_cmd cfg s uid t))"
proof -
  assume inv: "state_inv s"
  show ?thesis
  proof (cases "isAdmin cfg uid \<and> currentMatch s \<noteq> None \<and> parseScore t \<noteq> None")
    case False
    then show ?thesis using inv by (auto simp: end_cmd_def split: option.splits)
  next
    case True
    then obtain cur a where cur: "currentMatch s = Some cur" and a: "parseScore t = Some a"
      and adm: "isAdmin cfg uid" by auto
    define p where "p = (no_patch cur)\<lparr>patch_isOpen := Some False,
        patch_actualRuns := Some (runs a), patch_actualWickets := Some (wickets a)\<rparr>"
    have s': "snd (end_cmd cfg s uid t) = s\<lparr>matches := updateMatch (matches s) p, currentMatch := None\<rparr>"
      using cur a adm by (simp add: end_cmd_def Let_def p_def)
    have pid: "patch_id p = cur" and po: "patch_isOpen p = Some False" by (simp_all add: p_def)
    have "\<not> isOpen m'" if m': "m' \<in> set (updateMatch (matches s) p)" for m'
    proof
      assume o: "isOpen m'"
      from isOpen_updateMatch [OF m' o] po obtain m where "m \<in> set (matches s)"
        "match_id m = match_id m'" "isOpen m" by auto
      then have "match_id m' = cur" using inv cur by (auto simp: state_inv_def)
      with closed_updateMatch [OF m' _ po] pid o show False by simp
    qed
    then show ?thesis using inv by (simp add: s' state_inv_def)
  qed
qed

lemma cancel_inv: "state_inv s \<Longrightarrow> state_inv (snd (cancelmatch_cmd cfg s uid))"
  unfolding cancelmatch_cmd_def state_inv_def deleteMatch_def
  by (auto split: option.splits simp: distinct_map_filter)

lemma handle_inv: "state_inv s \<Longrightarrow> state_inv (snd (handle cfg s e))"
proof -
  assume inv: "state_inv s"
  obtain uid uname c where e: "e = (uid, uname, c)" by (cases e) auto
  show ?thesis unfolding e
    by (cases c; cases "bot_variant cfg")
       (simp_all add: inv setup_inv predict_inv edit_inv close_inv end_inv editmatch_inv cancel_inv)
qed

lemma run_inv: "state_inv s \<Longrightarrow> state_inv (run cfg s evs)"
  by (induction evs arbitrary: s) (simp_all add: handle_inv)

lemma init_inv: "state_inv init_state"
  by (simp add: state_inv_def init_state_def)

section \<open>The prediction registry\<close>

lemma upsert_in_place:
  assumes d: "distinct (map pred_key ps)" and i: "i < length ps"
    and k: "pred_key (ps ! i) = pred_key p"
  shows "map (\<lambda>q. if same_key q p then f q else q) ps = ps[i := f (ps ! i)]"
proof (rule nth_equalityI)
  show "length (map (\<lambda>q. if same_key q p then f q else q) ps) = length (ps[i := f (ps ! i)])"
    by simp
next
  fix j assume "j < length (map (\<lambda>q. if same_key q p then f q else q) ps)"
  then have j: "j < length ps" by simp
  show "map (\<lambda>q. if same_key q p then f q else q) ps ! j = ps[i := f (ps ! i)] ! j"
  proof (cases "j = i")
    case True
    then show ?thesis using i k by (simp add: same_key_iff)
  next
    case False
    have "pred_key (ps ! j) \<noteq> pred_key (ps ! i)"
    proof
      assume "pred_key (ps ! j) = pred_key (ps ! i)"
      then have "map pred_key ps ! j = map pred_key ps ! i" using i j by simp
      moreover have "(map pred_key ps ! j = map pred_key ps ! i) = (j = i)"
        using d i j by (intro nth_eq_iff_index_eq) simp_all
      ultimately show False using False by blast
    qed
    then show ?thesis using False j k by (simp add: same_key_iff)
  qed
qed

lemma overwrite_fields:
  "overwrite v p q = \<lparr>runs = runs p, wickets = wickets p, matchId = matchId q,
      userId = userId q, username = username p,
      comment = (case v of Simple \<Rightarrow> comment q | Advanced \<Rightarrow> comment p)\<rparr>"
  by (cases v) (simp_all add: overwrite_def)

lemma fresh_row_fields:
  "fresh_row v p = \<lparr>runs = runs p, wickets = wickets p, matchId = matchId p,
      userId = userId p, username = username p,
      comment = (case v of Simple \<Rightarrow> None | Advanced \<Rightarrow> comment p)\<rparr>"
  by (cases v) (simp_all add: fresh_row_def)

text \<open>
  Claim C6. In every state the process reaches from its start, no two prediction rows
  share \<open>(matchId, userId)\<close>. A successful \<^verbatim>\<open>insertOrUpdatePrediction\<close> on a table with
  unique keys leaves the keys unique; for a key that is not yet there it appends one row
  with the submitted values, and for a key that is there it replaces, at the place of the
  old row, the score and the username (and, in the advanced variant, the comment) by the
  submitted ones, keeping nothing of the old values. The statement succeeds whenever the
  key is already there, or foreign keys are not enforced, or the match exists.
\<close>

theorem registry_upsert:
  "distinct (map pred_key (predictions (run cfg init_state evs)))
   \<and> (distinct (map pred_key ps) \<and> insertOrUpdatePrediction cfg ms ps p = Inr ps' \<longrightarrow>
        distinct (map pred_key ps')
        \<and> (pred_key p \<notin> set (map pred_key ps) \<longrightarrow>
             ps' = ps @ [\<lparr>runs = runs p, wickets = wickets p, matchId = matchId p,
                          userId = userId p, username = username p,
                          comment = (case bot_variant cfg of Simple \<Rightarrow> None
                                     | Advanced \<Rightarrow> comment p)\<rparr>])
        \<and> (pred_key p \<in> set (map pred_key ps) \<longrightarrow>
             (\<exists>i < length ps. pred_key (ps ! i) = pred_key p
                \<and> ps' = ps[i := \<lparr>runs = runs p, wickets = wickets p, matchId = matchId p,
                                 userId = userId p, username = username p,
                                 comment = (case bot_variant cfg of
                                              Simple \<Rightarrow> comment (ps ! i)
                                            | Advanced \<Rightarrow> comment p)\<rparr>])))
   \<and> (pred_key p \<in> set (map pred_key ps) \<or> \<not> foreign_keys cfg
        \<or> matchId p \<in> set (map match_id ms)
        \<longrightarrow> (\<exists>ps'. insertOrUpdatePrediction cfg ms ps p = Inr ps'))"
proof (intro conjI impI)
  show "distinct (map pred_key (predictions (run cfg init_state evs)))"
    using run_inv [OF init_inv, of cfg evs] by (simp add: state_inv_def)
next
  assume "distinct (map pred_key ps) \<and> insertOrUpdatePrediction cfg ms ps p = Inr ps'"
  then show "distinct (map pred_key ps')" using upsert_distinct by blast
next
  assume "distinct (map pred_key ps) \<and> insertOrUpdatePrediction cfg ms ps p = Inr ps'"
    and "pred_key p \<notin> set (map pred_key ps)"
  then have "\<not> (\<exists>q \<in> set ps. same_key q p)" and "insertOrUpdatePrediction cfg ms ps p = Inr ps'"
    unfolding same_key_iff set_map by (metis imageI, blast)
  then have "ps' = ps @ [fresh_row (bot_variant cfg) p]"
    by (simp add: insertOrUpdatePrediction_def split: if_splits)
  then show "ps' = ps @ [\<lparr>runs = runs p, wickets = wickets p, matchId = matchId p,
                          userId = userId p, username = username p,
                          comment = (case bot_variant cfg of Simple \<Rightarrow> None
                                     | Advanced \<Rightarrow> comment p)\<rparr>]"
    by (simp add: fresh_row_fields)
next
  assume a: "distinct (map pred_key ps) \<and> insertOrUpdatePrediction cfg ms ps p = Inr ps'"
    and "pred_key p \<in> set (map pred_key ps)"
  then obtain i where i: "i < length ps" and k: "pred_key (ps ! i) = pred_key p"
    by (auto simp: in_set_conv_nth)
  then have "\<exists>q \<in> set ps. same_key q p" by (auto simp: same_key_iff)
  then have "ps' = map (\<lambda>q. if same_key q p then overwrite (bot_variant cfg) p q else q) ps"
    using a by (simp add: insertOrUpdatePrediction_def)
  also have "\<dots> = ps[i := overwrite (bot_variant cfg) p (ps ! i)]"
    using a i k by (simp add: upsert_in_place)
  also have "overwrite (bot_variant cfg) p (ps ! i)
      = \<lparr>runs = runs p, wickets = wickets p, matchId = matchId p,
         userId = userId p, username = username p,
         comment = (case bot_variant cfg of Simple \<Rightarrow> comment (ps ! i)
                    | Advanced \<Rightarrow> comment p)\<rparr>"
    using k by (simp add: overwrite_fields pred_key_def)
  finally show "\<exists>i < length ps. pred_key (ps ! i) = pred_key p
                \<and> ps' = ps[i := \<lparr>runs = runs p, wickets = wickets p, matchId = matchId p,
                                 userId = userId p, username = username p,
                                 comment = (case bot_variant cfg of
                                              Simple \<Rightarrow> comment (ps ! i)
                                            | Advanced \<Rightarrow> comment p)\<rparr>]"
    using i k by blast
next
  assume "pred_key p \<in> set (map pred_key ps) \<or> \<not> foreign_keys cfg
        \<or> matchId p \<in> set (map match_id ms)"
  then show "\<exists>ps'. insertOrUpdatePrediction cfg ms ps p = Inr ps'"
    unfolding insertOrUpdatePrediction_def same_key_iff by (auto simp: image_iff)
qed

theorem registry_upsert_witness:
  "distinct (map pred_key (predictions sample_state))
   \<and> insertOrUpdatePrediction (sample_cfg Advanced) (matches sample_state)
         (predictions sample_state) ((sample_pred ''102'' ''benny'' 190 7)\<lparr>comment := Some ''changed''\<rparr>)
       = Inr [sample_pred ''101'' ''asha'' 180 5,
              (sample_pred ''102'' ''benny'' 190 7)\<lparr>comment := Some ''changed''\<rparr>,
              sample_pred ''103'' ''cy'' 176 5]
   \<and> insertOrUpdatePrediction (sample_cfg Advanced) (matches sample_state)
         (predictions sample_state) (sample_pred ''104'' ''dee'' 150 9)
       = Inr (predictions sample_state @ [sample_pred ''104'' ''dee'' 150 9])
   \<and> pred_key (sample_pred ''102'' ''benny'' 190 7\<lparr>comment := Some ''changed''\<rparr>)
        \<in> set (map pred_key (predictions sample_state))
   \<and> pred_key (sample_pred ''104'' ''dee'' 150 9) \<notin> set (map pred_key (predictions sample_state))
   \<and> distinct (map pred_key [sample_pred ''101'' ''asha'' 180 5,
              (sample_pred ''102'' ''benny'' 190 7)\<lparr>comment := Some ''changed''\<rparr>,
              sample_pred ''103'' ''cy'' 176 5])
   \<and> distinct (map pred_key (predictions sample_state @ [sample_pred ''104'' ''dee'' 150 9]))"
proof -
  have h1: "distinct (map pred_key (predictions sample_state))"
    by (simp add: sample_state_def sample_pred_def pred_key_def)
  have h2: "insertOrUpdatePrediction (sample_cfg Advanced) (matches sample_state)
         (predictions sample_state) ((sample_pred ''102'' ''benny'' 190 7)\<lparr>comment := Some ''changed''\<rparr>)
       = Inr [sample_pred ''101'' ''asha'' 180 5,
              (sample_pred ''102'' ''benny'' 190 7)\<lparr>comment := Some ''changed''\<rparr>,
              sample_pred ''103'' ''cy'' 176 5]"
    by (simp add: sample_eval handler_eval parse_eval pred_key_def details_cmd_def getMatchDetails_def)
  have h3: "insertOrUpdatePrediction (sample_cfg Advanced) (matches sample_state)
         (predictions sample_state) (sample_pred ''104'' ''dee'' 150 9)
       = Inr (predictions sample_state @ [sample_pred ''104'' ''dee'' 150 9])"
    by (simp add: sample_eval handler_eval parse_eval pred_key_def details_cmd_def getMatchDetails_def)
  have h4: "pred_key (sample_pred ''102'' ''benny'' 190 7\<lparr>comment := Some ''changed''\<rparr>)
        \<in> set (map pred_key (predictions sample_state))"
    by (simp add: sample_state_def sample_pred_def pred_key_def)
  have h5: "pred_key (sample_pred ''104'' ''dee'' 150 9) \<notin> set (map pred_key (predictions sample_state))"
    by (simp add: sample_state_def sample_pred_def pred_key_def)
  from registry_upsert [of "sample_cfg Advanced" "[]" "predictions sample_state"
      "matches sample_state" "(sample_pred ''102'' ''benny'' 190 7)\<lparr>comment := Some ''changed''\<rparr>"
      "[sample_pred ''101'' ''asha'' 180 5,
              (sample_pred ''102'' ''benny'' 190 7)\<lparr>comment := Some ''changed''\<rparr>,
              sample_pred ''103'' ''cy'' 176 5]"] h1 h2
  have c1: "distinct (map pred_key [sample_pred ''101'' ''asha'' 180 5,
              (sample_pred ''102'' ''benny'' 190 7)\<lparr>comment := Some ''changed''\<rparr>,
              sample_pred ''103'' ''cy'' 176 5])" by blast
  from registry_upsert [of "sample_cfg Advanced" "[]" "predictions sample_state"
      "matches sample_state" "sample_pred ''104'' ''dee'' 150 9"
      "predictions sample_state @ [sample_pred ''104'' ''dee'' 150 9]"] h1 h3
  have c2: "distinct (map pred_key (predictions sample_state @ [sample_pred ''104'' ''dee'' 150 9]))"
    by blast
  show ?thesis using h1 h2 h3 h4 h5 c1 c2 by blast
qed

section \<open>The handlers of predictions and of the match lifecycle\<close>

lemma current_match_has_row:
  "state_inv s \<Longrightarrow> currentMatch s = Some cur \<Longrightarrow> cur \<in> set (map match_id (matches s))"
  by (simp add: state_inv_def)

lemma upsert_succeeds:
  assumes "pred_key p \<in> set (map pred_key ps) \<or> \<not> foreign_keys cfg
        \<or> matchId p \<in> set (map match_id ms)"
  shows "\<exists>ps'. insertOrUpdatePrediction cfg ms ps p = Inr ps'"
  using assms unfolding insertOrUpdatePrediction_def same_key_iff by (auto simp: image_iff)

text \<open>
  Claim C10. \<^verbatim>\<open>edit\<close> does what \<^verbatim>\<open>predict\<close> does: the same state results, and the
  outcome is the same up to the wording of the two replies "no active match" and
  "prediction saved/updated". Each is refused for want of a current match exactly when
  there is none, whoever calls and whether the match is open or not, and each answers
  "invalid score format" exactly when there is a current match and the text does not
  parse. In a state the process can reach, \<^verbatim>\<open>edit\<close> by a user without a prediction for
  the current match adds the row.
\<close>

theorem edit_equals_predict:
  "edit_cmd cfg s uid uname t c
     = (as_edit (fst (predict_cmd cfg s uid uname t c)), snd (predict_cmd cfg s uid uname t c))
   \<and> (fst (predict_cmd cfg s uid uname t c) = Reply NoActiveMatchPredict
        \<longleftrightarrow> currentMatch s = None)
   \<and> (fst (edit_cmd cfg s uid uname t c) = Reply NoActiveMatchEdit
        \<longleftrightarrow> currentMatch s = None)
   \<and> (fst (predict_cmd cfg s uid uname t c) = Reply InvalidScoreFormat
        \<longleftrightarrow> currentMatch s \<noteq> None \<and> parseScore t = None)
   \<and> (fst (edit_cmd cfg s uid uname t c) = Reply InvalidScoreFormat
        \<longleftrightarrow> currentMatch s \<noteq> None \<and> parseScore t = None)
   \<and> (s = run cfg init_state evs \<and> currentMatch s = Some cur \<and> parseScore t = Some sc
        \<and> (cur, uid) \<notin> set (map pred_key (predictions s))
        \<longrightarrow> edit_cmd cfg s uid uname t c
              = (Reply (PredictionUpdated t (comment_text cfg c)),
                 s\<lparr>predictions := predictions s @
                      [\<lparr>runs = runs sc, wickets = wickets sc, matchId = cur, userId = uid,
                        username = uname, comment = comment_arg cfg c\<rparr>]\<rparr>))"
proof (intro conjI impI)
  show "edit_cmd cfg s uid uname t c
     = (as_edit (fst (predict_cmd cfg s uid uname t c)), snd (predict_cmd cfg s uid uname t c))"
    by (simp add: edit_cmd_def predict_cmd_def split: option.splits sum.splits)
  show "fst (predict_cmd cfg s uid uname t c) = Reply NoActiveMatchPredict
        \<longleftrightarrow> currentMatch s = None"
    by (simp add: predict_cmd_def split: option.splits sum.splits)
  show "fst (edit_cmd cfg s uid uname t c) = Reply NoActiveMatchEdit
        \<longleftrightarrow> currentMatch s = None"
    by (simp add: edit_cmd_def split: option.splits sum.splits)
  show "fst (predict_cmd cfg s uid uname t c) = Reply InvalidScoreFormat
        \<longleftrightarrow> currentMatch s \<noteq> None \<and> parseScore t = None"
    by (simp add: predict_cmd_def split: option.splits sum.splits)
  show "fst (edit_cmd cfg s uid uname t c) = Reply InvalidScoreFormat
        \<longleftrightarrow> currentMatch s \<noteq> None \<and> parseScore t = None"
    by (simp add: edit_cmd_def split: option.splits sum.splits)
next
  assume a: "s = run cfg init_state evs \<and> currentMatch s = Some cur \<and> parseScore t = Some sc
        \<and> (cur, uid) \<notin> set (map pred_key (predictions s))"
  define row where "row = \<lparr>runs = runs sc, wickets = wickets sc, matchId = cur, userId = uid,
                        username = uname, comment = comment_arg cfg c\<rparr>"
  have inv: "state_inv s" using a run_inv [OF init_inv] by simp
  from a have cm: "currentMatch s = Some cur" and sc: "parseScore t = Some sc" by blast+
  have cur: "cur \<in> set (map match_id (matches s))"
    using current_match_has_row [OF inv cm] .
  have nk: "\<not> (\<exists>q \<in> set (predictions s). same_key q row)"
    using a unfolding same_key_iff set_map by (auto simp: row_def pred_key_def image_iff)
  have fr: "fresh_row (bot_variant cfg) row = row"
    by (cases "bot_variant cfg") (simp_all add: fresh_row_def row_def comment_arg_def)
  have "insertOrUpdatePrediction cfg (matches s) (predictions s) row
          = Inr (predictions s @ [row])"
    using nk cur fr by (simp add: insertOrUpdatePrediction_def row_def)
  with cm sc show "edit_cmd cfg s uid uname t c
              = (Reply (PredictionUpdated t (comment_text cfg c)),
                 s\<lparr>predictions := predictions s @
                      [\<lparr>runs = runs sc, wickets = wickets sc, matchId = cur, userId = uid,
                        username = uname, comment = comment_arg cfg c\<rparr>]\<rparr>)"
    by (simp add: edit_cmd_def row_def)
qed

theorem edit_equals_predict_witness:
  "currentMatch (run (sample_cfg Advanced) init_state (take 1 sample_events)) = Some ''1700000000000''
   \<and> parseScore (utf16 ''181/4'') = Some \<lparr>runs = Num 181, wickets = Num 4\<rparr>
   \<and> (''1700000000000'', ''105'')
        \<notin> set (map pred_key (predictions (run (sample_cfg Advanced) init_state (take 1 sample_events))))
   \<and> edit_cmd (sample_cfg Advanced) (run (sample_cfg Advanced) init_state (take 1 sample_events))
        ''105'' ''eli'' (utf16 ''181/4'') None
      = (Reply (PredictionUpdated (utf16 ''181/4'') []),
         (run (sample_cfg Advanced) init_state (take 1 sample_events))
           \<lparr>predictions := [\<lparr>runs = Num 181, wickets = Num 4, matchId = ''1700000000000'',
                              userId = ''105'', username = ''eli'', comment = Some []\<rparr>]\<rparr>)"
proof -
  have h1: "currentMatch (run (sample_cfg Advanced) init_state (take 1 sample_events)) = Some ''1700000000000''"
    by (simp add: sample_eval handler_eval parse_eval pred_key_def details_cmd_def getMatchDetails_def)
  have h2: "parseScore (utf16 ''181/4'') = Some \<lparr>runs = Num 181, wickets = Num 4\<rparr>"
    by (simp add: sample_eval handler_eval parse_eval pred_key_def details_cmd_def getMatchDetails_def)
  have h3: "(''1700000000000'', ''105'')
        \<notin> set (map pred_key (predictions (run (sample_cfg Advanced) init_state (take 1 sample_events))))"
    by (simp add: sample_eval handler_eval parse_eval pred_key_def details_cmd_def getMatchDetails_def)
  have h4: "predictions (run (sample_cfg Advanced) init_state (take 1 sample_events)) = []"
    by (simp add: sample_eval handler_eval parse_eval pred_key_def details_cmd_def getMatchDetails_def)
  have h5: "comment_text (sample_cfg Advanced) None = []"
    "comment_arg (sample_cfg Advanced) None = Some []"
    by (simp_all add: comment_text_def comment_arg_def sample_cfg_def)
  from edit_equals_predict [of "sample_cfg Advanced"
      "run (sample_cfg Advanced) init_state (take 1 sample_events)" "''105''" "''eli''" "(utf16 ''181/4'')"
      None "take 1 sample_events" "''1700000000000''" "\<lparr>runs = Num 181, wickets = Num 4\<rparr>"] h1 h2 h3
  have "edit_cmd (sample_cfg Advanced) (run (sample_cfg Advanced) init_state (take 1 sample_events))
        ''105'' ''eli'' (utf16 ''181/4'') None
      = (Reply (PredictionUpdated (utf16 ''181/4'') (comment_text (sample_cfg Advanced) None)),
         (run (sample_cfg Advanced) init_state (take 1 sample_events))
           \<lparr>predictions := predictions (run (sample_cfg Advanced) init_state (take 1 sample_events)) @
              [\<lparr>runs = runs \<lparr>runs = Num 181, wickets = Num 4\<rparr>, wickets = wickets \<lparr>runs = Num 181, wickets = Num 4\<rparr>,
                matchId = ''1700000000000'', userId = ''105'', username = ''eli'',
                comment = comment_arg (sample_cfg Advanced) None\<rparr>]\<rparr>)"
    by blast
  then have "edit_cmd (sample_cfg Advanced) (run (sample_cfg Advanced) init_state (take 1 sample_events))
        ''105'' ''eli'' (utf16 ''181/4'') None
      = (Reply (PredictionUpdated (utf16 ''181/4'') []),
         (run (sample_cfg Advanced) init_state (take 1 sample_events))
           \<lparr>predictions := [\<lparr>runs = Num 181, wickets = Num 4, matchId = ''1700000000000'',
                              userId = ''105'', username = ''eli'', comment = Some []\<rparr>]\<rparr>)"
    by (simp only: h4 h5 append_Nil Score.simps)
  then show ?thesis using h1 h2 h3 by blast
qed

text \<open>
  Claim C7, as amended. With a current match, \<^verbatim>\<open>end\<close> on a text that the score parser
  rejects leaves the whole state as it was (match row, predictions and current-match
  pointer), and answers an administrator with "invalid score format". On a text that the
  parser accepts, which includes a text with further characters after the leading integer
  of a segment, \<^verbatim>\<open>end\<close> by an administrator closes the row of the current match and
  stores the actual score in it, leaves every other row and all predictions alone, reports
  the winner found among the predictions of that match, and clears the pointer.
\<close>

theorem end_atomic_on_parse_failure:
  assumes "currentMatch s = Some cur"
  shows "(parseScore t = None \<longrightarrow>
            snd (end_cmd cfg s uid t) = s
            \<and> (isAdmin cfg uid \<longrightarrow> fst (end_cmd cfg s uid t) = Reply InvalidScoreFormat))
       \<and> (parseScore t = Some a \<and> isAdmin cfg uid \<longrightarrow>
            fst (end_cmd cfg s uid t)
              = Reply (MatchResult a (find_winner (bot_variant cfg) a
                                        (getPredictionsForMatch (predictions s) cur)))
            \<and> currentMatch (snd (end_cmd cfg s uid t)) = None
            \<and> predictions (snd (end_cmd cfg s uid t)) = predictions s
            \<and> length (matches (snd (end_cmd cfg s uid t))) = length (matches s)
            \<and> (\<forall>i < length (matches s).
                  matches (snd (end_cmd cfg s uid t)) ! i
                    = (if match_id (matches s ! i) = cur
                       then (matches s ! i)\<lparr>isOpen := False, actualRuns := Some (runs a),
                                              actualWickets := Some (wickets a)\<rparr>
                       else matches s ! i)))"
  using assms
  by (auto simp: end_cmd_def Let_def nth_updateMatch update_row_def coalesce_def
                 coalesce_null_def no_patch_def)

theorem end_atomic_on_parse_failure_witness:
  "currentMatch sample_state = Some ''1700000000000''
   \<and> parseScore (utf16 ''178-5'') = None
   \<and> isAdmin (sample_cfg Advanced) ''900''
   \<and> end_cmd (sample_cfg Advanced) sample_state ''900'' (utf16 ''178-5'')
       = (Reply InvalidScoreFormat, sample_state)
   \<and> parseScore (utf16 ''178/5'') = Some \<lparr>runs = Num 178, wickets = Num 5\<rparr>
   \<and> currentMatch (snd (end_cmd (sample_cfg Advanced) sample_state ''900'' (utf16 ''178/5''))) = None
   \<and> matches (snd (end_cmd (sample_cfg Advanced) sample_state ''900'' (utf16 ''178/5''))) ! 0
       = sample_match\<lparr>isOpen := False, actualRuns := Some (Num 178), actualWickets := Some (Num 5)\<rparr>"
proof -
  have h1: "currentMatch sample_state = Some ''1700000000000''"
    by (simp add: sample_state_def)
  have h2: "parseScore (utf16 ''178-5'') = None" by (simp add: sample_eval handler_eval parse_eval pred_key_def details_cmd_def getMatchDetails_def)
  have h3: "isAdmin (sample_cfg Advanced) ''900''"
    by (simp add: isAdmin_def sample_cfg_def)
  have h4: "parseScore (utf16 ''178/5'') = Some \<lparr>runs = Num 178, wickets = Num 5\<rparr>" by (simp add: sample_eval handler_eval parse_eval pred_key_def details_cmd_def getMatchDetails_def)
  have h5: "matches sample_state ! 0 = sample_match" "0 < length (matches sample_state)"
    "match_id sample_match = ''1700000000000''"
    by (simp_all add: sample_state_def sample_match_def)
  note t1 = end_atomic_on_parse_failure [OF h1, of "(utf16 ''178-5'')" "sample_cfg Advanced" "''900''"
      "\<lparr>runs = Num 178, wickets = Num 5\<rparr>"]
  note t2 = end_atomic_on_parse_failure [OF h1, of "(utf16 ''178/5'')" "sample_cfg Advanced" "''900''"
      "\<lparr>runs = Num 178, wickets = Num 5\<rparr>"]
  have c1: "end_cmd (sample_cfg Advanced) sample_state ''900'' (utf16 ''178-5'')
       = (Reply InvalidScoreFormat, sample_state)"
    using t1 h2 h3 by (metis prod.collapse)
  have c2: "currentMatch (snd (end_cmd (sample_cfg Advanced) sample_state ''900'' (utf16 ''178/5''))) = None"
    using t2 h3 h4 by blast
  have "matches (snd (end_cmd (sample_cfg Advanced) sample_state ''900'' (utf16 ''178/5''))) ! 0
       = (if match_id (matches sample_state ! 0) = ''1700000000000''
          then (matches sample_state ! 0)\<lparr>isOpen := False, actualRuns := Some (runs \<lparr>runs = Num 178, wickets = Num 5\<rparr>),
                   actualWickets := Some (wickets \<lparr>runs = Num 178, wickets = Num 5\<rparr>)\<rparr>
          else matches sample_state ! 0)"
    using t2 h3 h4 h5(2) by blast
  then have c3: "matches (snd (end_cmd (sample_cfg Advanced) sample_state ''900'' (utf16 ''178/5''))) ! 0
       = sample_match\<lparr>isOpen := False, actualRuns := Some (Num 178), actualWickets := Some (Num 5)\<rparr>"
    by (simp add: h5)
  show ?thesis using h1 h2 h3 h4 c1 c2 c3 by blast
qed

text \<open>
  Claim C7, as stated, fails for a malformed text that the parser accepts: neither segment
  of "178x/5 wickets" is a base-10 integer, yet \<^verbatim>\<open>end\<close> with it closes the match,
  stores 178/5, reports a winner and clears the current match.
\<close>

theorem end_accepts_trailing_text_counterexample:
  "\<not> is_base10_integer (trim (utf16 ''178x''))
   \<and> \<not> is_base10_integer (trim (utf16 ''5 wickets''))
   \<and> currentMatch sample_state = Some ''1700000000000''
   \<and> isAdmin (sample_cfg Advanced) ''900''
   \<and> end_cmd (sample_cfg Advanced) sample_state ''900'' (utf16 ''178x/5 wickets'')
       = (Reply (MatchResult \<lparr>runs = Num 178, wickets = Num 5\<rparr>
                   (Some (sample_pred ''101'' ''asha'' 180 5))),
          sample_state\<lparr>matches := [sample_match\<lparr>isOpen := False, actualRuns := Some (Num 178),
                                        actualWickets := Some (Num 5)\<rparr>],
                        currentMatch := None\<rparr>)"
  by (simp add: sample_eval handler_eval parse_eval is_base10_integer_def)

text \<open>
  Claim C8. With a current match, \<^verbatim>\<open>close\<close> by an administrator sets \<open>isOpen\<close> of that
  match's row to false and changes nothing else: the other fields and rows, the
  predictions and the current-match pointer stay. In a state the process can reach, a
  prediction with a well-formed score submitted after that \<^verbatim>\<open>close\<close> is saved, and
  \<^verbatim>\<open>list\<close> shows it among the predictions of the match.
\<close>

theorem close_only_flips_isOpen:
  assumes "isAdmin cfg uid" and "currentMatch s = Some cur"
    and "s' = snd (close_cmd cfg s uid)"
  shows "fst (close_cmd cfg s uid) = Reply PollClosed
       \<and> currentMatch s' = Some cur
       \<and> predictions s' = predictions s
       \<and> length (matches s') = length (matches s)
       \<and> (\<forall>i < length (matches s).
             matches s' ! i = (if match_id (matches s ! i) = cur
                               then (matches s ! i)\<lparr>isOpen := False\<rparr> else matches s ! i))
       \<and> (s = run cfg init_state evs \<and> parseScore t = Some sc \<longrightarrow>
            (\<exists>ps. predict_cmd cfg s' u un t c
                     = (Reply (PredictionSaved t (comment_text cfg c)), s'\<lparr>predictions := ps\<rparr>)
                 \<and> (\<exists>r \<in> set (getPredictionsForMatch ps cur).
                       userId r = u \<and> username r = un \<and> runs r = runs sc
                       \<and> wickets r = wickets sc)
                 \<and> list_cmd (s'\<lparr>predictions := ps\<rparr>)
                     = CurrentPredictions (getPredictionsForMatch ps cur)))"
proof -
  have s': "s' = s\<lparr>matches := updateMatch (matches s) ((no_patch cur)\<lparr>patch_isOpen := Some False\<rparr>)\<rparr>"
    using assms by (simp add: close_cmd_def)
  have 1: "fst (close_cmd cfg s uid) = Reply PollClosed"
    using assms by (simp add: close_cmd_def)
  have 2: "currentMatch s' = Some cur" "predictions s' = predictions s"
    "length (matches s') = length (matches s)"
    using assms(2) by (simp_all add: s')
  have 3: "\<forall>i < length (matches s).
             matches s' ! i = (if match_id (matches s ! i) = cur
                               then (matches s ! i)\<lparr>isOpen := False\<rparr> else matches s ! i)"
    by (simp add: s' nth_updateMatch update_row_def coalesce_def coalesce_null_def no_patch_def)
  have 4: "\<exists>ps. predict_cmd cfg s' u un t c
                     = (Reply (PredictionSaved t (comment_text cfg c)), s'\<lparr>predictions := ps\<rparr>)
                 \<and> (\<exists>r \<in> set (getPredictionsForMatch ps cur).
                       userId r = u \<and> username r = un \<and> runs r = runs sc
                       \<and> wickets r = wickets sc)
                 \<and> list_cmd (s'\<lparr>predictions := ps\<rparr>)
                     = CurrentPredictions (getPredictionsForMatch ps cur)"
    if r: "s = run cfg init_state evs" and sc: "parseScore t = Some sc"
  proof -
    define row where "row = \<lparr>runs = runs sc, wickets = wickets sc, matchId = cur, userId = u,
                        username = un, comment = comment_arg cfg c\<rparr>"
    have inv: "state_inv s" using r run_inv [OF init_inv] by simp
    have "cur \<in> set (map match_id (matches s'))"
      using current_match_has_row [OF inv assms(2)] by (simp add: s')
    then have "matchId row \<in> set (map match_id (matches s'))" by (simp add: row_def)
    then obtain ps where ps: "insertOrUpdatePrediction cfg (matches s') (predictions s') row = Inr ps"
      using upsert_succeeds by blast
    have d: "distinct (map pred_key (predictions s'))"
      using inv by (simp add: 2 state_inv_def)
    have "pred_key row \<in> set (map pred_key ps)"
      using upsert_keys [OF ps] by (auto split: if_splits)
    then obtain r0 where r0: "r0 \<in> set ps" "pred_key r0 = pred_key row" by auto
    have "\<exists>r \<in> set ps. pred_key r = pred_key row \<and> username r = un \<and> runs r = runs sc
              \<and> wickets r = wickets sc"
    proof (cases "\<exists>q \<in> set (predictions s'). same_key q row")
      case True
      then have e: "ps = map (\<lambda>q. if same_key q row then overwrite (bot_variant cfg) row q else q)
                          (predictions s')"
        using ps by (simp add: insertOrUpdatePrediction_def)
      from True obtain q where q: "q \<in> set (predictions s')" "same_key q row" by blast
      then have "overwrite (bot_variant cfg) row q \<in> set ps" unfolding e by force
      then show ?thesis
        using q(2) by (intro bexI [of _ "overwrite (bot_variant cfg) row q"])
          (simp_all add: overwrite_fields row_def same_key_iff pred_key_def)
    next
      case False
      then have "ps = predictions s' @ [fresh_row (bot_variant cfg) row]"
        using ps by (simp add: insertOrUpdatePrediction_def split: if_splits)
      then show ?thesis
        by (intro bexI [of _ "fresh_row (bot_variant cfg) row"])
           (simp_all add: fresh_row_fields row_def pred_key_def)
    qed
    then have "\<exists>r \<in> set (getPredictionsForMatch ps cur).
                       userId r = u \<and> username r = un \<and> runs r = runs sc
                       \<and> wickets r = wickets sc"
      by (auto simp: getPredictionsForMatch_def pred_key_def row_def)
    moreover have "predict_cmd cfg s' u un t c
                     = (Reply (PredictionSaved t (comment_text cfg c)), s'\<lparr>predictions := ps\<rparr>)"
      using ps sc 2(1) by (simp add: predict_cmd_def row_def)
    moreover have "list_cmd (s'\<lparr>predictions := ps\<rparr>)
                     = CurrentPredictions (getPredictionsForMatch ps cur)"
      using 2(1) by (simp add: list_cmd_def)
    ultimately show ?thesis by blast
  qed
  show ?thesis using 1 2 3 4 by blast
qed

theorem close_only_flips_isOpen_witness:
  "isAdmin (sample_cfg Simple) ''900''
   \<and> currentMatch (run (sample_cfg Simple) init_state sample_events) = Some ''1700000000000''
   \<and> parseScore (utf16 ''176/5'') = Some \<lparr>runs = Num 176, wickets = Num 5\<rparr>
   \<and> fst (close_cmd (sample_cfg Simple) (run (sample_cfg Simple) init_state sample_events) ''900'')
       = Reply PollClosed
   \<and> currentMatch (snd (close_cmd (sample_cfg Simple)
          (run (sample_cfg Simple) init_state sample_events) ''900'')) = Some ''1700000000000''
   \<and> (\<exists>ps. predict_cmd (sample_cfg Simple)
               (snd (close_cmd (sample_cfg Simple)
                       (run (sample_cfg Simple) init_state sample_events) ''900''))
               ''103'' ''cy'' (utf16 ''176/5'') None
             = (Reply (PredictionSaved (utf16 ''176/5'') (comment_text (sample_cfg Simple) None)),
                (snd (close_cmd (sample_cfg Simple)
                       (run (sample_cfg Simple) init_state sample_events) ''900''))
                  \<lparr>predictions := ps\<rparr>)
          \<and> (\<exists>r \<in> set (getPredictionsForMatch ps ''1700000000000'').
                userId r = ''103'' \<and> username r = ''cy'' \<and> runs r = Num 176 \<and> wickets r = Num 5))"
proof -
  have h1: "isAdmin (sample_cfg Simple) ''900''"
    by (simp add: isAdmin_def sample_cfg_def)
  have h2: "currentMatch (run (sample_cfg Simple) init_state sample_events) = Some ''1700000000000''"
    by (simp add: sample_eval handler_eval parse_eval pred_key_def details_cmd_def getMatchDetails_def)
  have h3: "parseScore (utf16 ''176/5'') = Some \<lparr>runs = Num 176, wickets = Num 5\<rparr>" by (simp add: sample_eval handler_eval parse_eval pred_key_def details_cmd_def getMatchDetails_def)
  from close_only_flips_isOpen [OF h1 h2 refl, of sample_events "(utf16 ''176/5'')"
      "\<lparr>runs = Num 176, wickets = Num 5\<rparr>" "''103''" "''cy''" None] h3
  show ?thesis using h1 h2 by simp blast
qed

text \<open>
  Claim C9 (advanced variant; the baseline has no such command). With a current match,
  \<^verbatim>\<open>cancelmatch\<close> by an administrator removes the row of that match and every
  prediction for it and nothing else, and clears the pointer; afterwards
  \<^verbatim>\<open>getMatchDetails\<close> finds nothing for that id, \<^verbatim>\<open>details\<close> answers "not found", and
  the predictions query for that id is empty. Without a current match the command
  answers "no active match" and the state stays as it was.
\<close>

theorem cancel_cascade:
  assumes "isAdmin cfg uid" and "s' = snd (cancelmatch_cmd cfg s uid)"
  shows "(currentMatch s = Some cur \<longrightarrow>
            fst (cancelmatch_cmd cfg s uid) = Reply MatchCancelled
            \<and> currentMatch s' = None
            \<and> matches s' = filter (\<lambda>m. match_id m \<noteq> cur) (matches s)
            \<and> predictions s' = filter (\<lambda>p. matchId p \<noteq> cur) (predictions s)
            \<and> getMatchDetails s' cur = None
            \<and> details_cmd s' cur = MatchIdNotFound
            \<and> getPredictionsForMatch (predictions s') cur = [])
       \<and> (currentMatch s = None \<longrightarrow>
            cancelmatch_cmd cfg s uid = (Reply NoActiveMatchCancel, s))"
proof -
  have f: "find (\<lambda>m. match_id m = cur) (filter (\<lambda>m. match_id m \<noteq> cur) ms) = None" for ms :: "MatchRow list"
    by (simp add: find_None_iff)
  show ?thesis
    using assms
    by (auto simp: cancelmatch_cmd_def deleteMatch_def getMatchDetails_def details_cmd_def
                   getPredictionsForMatch_def f filter_empty_conv)
qed

theorem cancel_cascade_witness:
  "isAdmin (sample_cfg Advanced) ''900''
   \<and> currentMatch sample_state = Some ''1700000000000''
   \<and> fst (cancelmatch_cmd (sample_cfg Advanced) sample_state ''900'') = Reply MatchCancelled
   \<and> snd (cancelmatch_cmd (sample_cfg Advanced) sample_state ''900'') = init_state
   \<and> details_cmd (snd (cancelmatch_cmd (sample_cfg Advanced) sample_state ''900''))
        ''1700000000000'' = MatchIdNotFound
   \<and> currentMatch init_state = None
   \<and> cancelmatch_cmd (sample_cfg Advanced) init_state ''900'' = (Reply NoActiveMatchCancel, init_state)"
proof -
  have h1: "isAdmin (sample_cfg Advanced) ''900''"
    by (simp add: isAdmin_def sample_cfg_def)
  have h2: "currentMatch sample_state = Some ''1700000000000''"
    by (simp add: sample_state_def)
  have h3: "currentMatch init_state = None" by (simp add: init_state_def)
  have h4: "snd (cancelmatch_cmd (sample_cfg Advanced) sample_state ''900'') = init_state"
    by (simp add: sample_eval handler_eval parse_eval pred_key_def details_cmd_def getMatchDetails_def)
  from cancel_cascade [OF h1 refl, of sample_state "''1700000000000''"]
       cancel_cascade [OF h1 refl, of init_state "''1700000000000''"]
  show ?thesis using h1 h2 h3 h4 by simp
qed

section \<open>One active match\<close>

lemma setup_when_active:
  assumes "currentMatch s \<noteq> None"
  shows "snd (setup_cmd cfg s uid now team ts vn dt) = s"
    and "isAdmin cfg uid \<Longrightarrow> fst (setup_cmd cfg s uid now team ts vn dt) = Reply AlreadyRunning"
  using assms by (simp_all add: setup_cmd_def)

lemma handle_keeps_current:
  assumes "keeps_match e" and "currentMatch s = Some cur"
  shows "currentMatch (snd (handle cfg s e)) = Some cur"
proof -
  obtain uid uname c where e: "e = (uid, uname, c)" by (cases e) auto
  show ?thesis using assms unfolding e
    by (cases c; cases "bot_variant cfg")
       (simp_all add: setup_cmd_def predict_cmd_def edit_cmd_def close_cmd_def
          editmatch_cmd_def split: sum.splits option.splits)
qed

lemma run_keeps_current:
  "list_all keeps_match evs \<Longrightarrow> currentMatch s = Some cur
     \<Longrightarrow> currentMatch (run cfg s evs) = Some cur"
  by (induction evs arbitrary: s) (simp_all add: handle_keeps_current)

lemma inv_one_open:
  assumes "state_inv s" and "i < length (matches s)" and "j < length (matches s)"
    and "isOpen (matches s ! i)" and "isOpen (matches s ! j)"
  shows "i = j"
proof (cases "currentMatch s")
  case None
  then have "\<not> isOpen (matches s ! i)" using assms(1,2) by (simp add: state_inv_def)
  with assms(4) show ?thesis by simp
next
  case (Some cur)
  then have "match_id (matches s ! i) = cur" "match_id (matches s ! j) = cur"
    using assms by (simp_all add: state_inv_def)
  then have "map match_id (matches s) ! i = map match_id (matches s) ! j"
    using assms(2,3) by simp
  moreover have "distinct (map match_id (matches s))" using assms(1) by (simp add: state_inv_def)
  moreover have "(map match_id (matches s) ! i = map match_id (matches s) ! j) = (i = j)"
    using calculation(2) assms(2,3) by (intro nth_eq_iff_index_eq) simp_all
  ultimately show ?thesis by blast
qed

text \<open>
  Claim C4. In every state the process reaches from its start, at most one row of the
  matches table is open. After a successful \<^verbatim>\<open>setup\<close>, and any interactions that are
  neither \<^verbatim>\<open>end\<close> nor \<^verbatim>\<open>cancelmatch\<close>, the match of that set-up is still the current
  one, and a further \<^verbatim>\<open>setup\<close> leaves the state untouched and answers an administrator
  with "a match is already running".
\<close>

theorem single_active_match:
  "(\<forall>i < length (matches (run cfg init_state evs)).
      \<forall>j < length (matches (run cfg init_state evs)).
        isOpen (matches (run cfg init_state evs) ! i)
        \<and> isOpen (matches (run cfg init_state evs) ! j) \<longrightarrow> i = j)
   \<and> (fst (setup_cmd cfg s0 uid now team ts vn dt) = Reply (SetupComplete now)
        \<and> list_all keeps_match between
        \<and> s2 = run cfg (snd (setup_cmd cfg s0 uid now team ts vn dt)) between
      \<longrightarrow> currentMatch s2 = Some now
          \<and> snd (setup_cmd cfg s2 uid2 now2 team2 ts2 vn2 dt2) = s2
          \<and> (isAdmin cfg uid2 \<longrightarrow>
                fst (setup_cmd cfg s2 uid2 now2 team2 ts2 vn2 dt2) = Reply AlreadyRunning))"
proof (intro conjI impI allI)
  fix i j
  assume "i < length (matches (run cfg init_state evs))"
    and "j < length (matches (run cfg init_state evs))"
    and "isOpen (matches (run cfg init_state evs) ! i)
        \<and> isOpen (matches (run cfg init_state evs) ! j)"
  then show "i = j" using inv_one_open [OF run_inv [OF init_inv]] by blast
next
  assume a: "fst (setup_cmd cfg s0 uid now team ts vn dt) = Reply (SetupComplete now)
        \<and> list_all keeps_match between
        \<and> s2 = run cfg (snd (setup_cmd cfg s0 uid now team ts vn dt)) between"
  then have "currentMatch (snd (setup_cmd cfg s0 uid now team ts vn dt)) = Some now"
    by (auto simp: setup_cmd_def split: if_splits sum.splits)
  with a show c: "currentMatch s2 = Some now" using run_keeps_current by blast
  then show "snd (setup_cmd cfg s2 uid2 now2 team2 ts2 vn2 dt2) = s2"
    by (simp add: setup_when_active)
  show "fst (setup_cmd cfg s2 uid2 now2 team2 ts2 vn2 dt2) = Reply AlreadyRunning"
    if "isAdmin cfg uid2" using that c by (simp add: setup_when_active)
qed

theorem single_active_match_witness:
  "fst (setup_cmd (sample_cfg Simple) init_state ''900'' ''1700000000000'' ''Lions''
          ''Batting first'' ''Pune'' ''2025-03-01'') = Reply (SetupComplete ''1700000000000'')
   \<and> list_all keeps_match (tl sample_events)
   \<and> isAdmin (sample_cfg Simple) ''900''
   \<and> run (sample_cfg Simple) init_state sample_events
       = sample_state\<lparr>predictions := take 2 (predictions sample_state)\<rparr>
   \<and> setup_cmd (sample_cfg Simple) (run (sample_cfg Simple) init_state sample_events)
        ''900'' ''1700000000555'' ''Tigers'' ''Bowling first'' ''Delhi'' ''2025-03-02''
       = (Reply AlreadyRunning, run (sample_cfg Simple) init_state sample_events)
   \<and> currentMatch (run (sample_cfg Simple) init_state sample_events) = Some ''1700000000000''"
proof -
  have h1: "fst (setup_cmd (sample_cfg Simple) init_state ''900'' ''1700000000000'' ''Lions''
          ''Batting first'' ''Pune'' ''2025-03-01'') = Reply (SetupComplete ''1700000000000'')"
    by (simp add: sample_eval handler_eval parse_eval pred_key_def details_cmd_def getMatchDetails_def)
  have h2: "list_all keeps_match (tl sample_events)"
    by (simp add: sample_events_def)
  have h3: "isAdmin (sample_cfg Simple) ''900''"
    by (simp add: isAdmin_def sample_cfg_def)
  have h4: "run (sample_cfg Simple) init_state sample_events
       = run (sample_cfg Simple) (snd (setup_cmd (sample_cfg Simple) init_state ''900''
           ''1700000000000'' ''Lions'' ''Batting first'' ''Pune'' ''2025-03-01'')) (tl sample_events)"
    by (simp add: sample_events_def)
  have h5: "run (sample_cfg Simple) init_state sample_events
       = sample_state\<lparr>predictions := take 2 (predictions sample_state)\<rparr>"
    by (simp add: sample_eval handler_eval parse_eval pred_key_def details_cmd_def getMatchDetails_def)
  from single_active_match [of "sample_cfg Simple" sample_events init_state "''900''"
      "''1700000000000''" "''Lions''" "''Batting first''" "''Pune''" "''2025-03-01''"
      "tl sample_events" "run (sample_cfg Simple) init_state sample_events"
      "''900''" "''1700000000555''" "''Tigers''" "''Bowling first''" "''Delhi''" "''2025-03-02''"]
  show ?thesis using h1 h2 h3 h4 h5 by (metis prod.collapse)
qed

section \<open>The score parser\<close>

lemma split_on_not_Nil [simp]: "split_on c t \<noteq> []"
  by (induction t) (auto split: list.splits)

lemma split_on_no_sep: "c \<notin> set a \<Longrightarrow> split_on c a = [a]"
  by (induction a) auto

lemma split_on_append: "c \<notin> set a \<Longrightarrow> split_on c (a @ c # b) = a # split_on c b"
  by (induction a) auto

lemma split_on_Cons:
  "split_on c t = p # ps \<Longrightarrow>
     c \<notin> set p \<and> (if ps = [] then t = p else (\<exists>r. t = p @ c # r \<and> split_on c r = ps))"
proof (induction t arbitrary: p ps)
  case Nil
  then show ?case by simp
next
  case (Cons x xs)
  show ?case
  proof (cases "x = c")
    case True
    with Cons.prems have "p = []" "ps = split_on c xs" by simp_all
    then show ?thesis using True by simp
  next
    case False
    obtain q qs where q: "split_on c xs = q # qs"
      by (cases "split_on c xs") simp_all
    with Cons.prems False have p: "p = x # q" "ps = qs" by simp_all
    from Cons.IH [OF q] show ?thesis using False p by auto
  qed
qed

lemma split_on_two:
  "split_on c t = [a, b] \<longleftrightarrow> t = a @ c # b \<and> c \<notin> set a \<and> c \<notin> set b"
proof
  assume h: "split_on c t = [a, b]"
  from split_on_Cons [OF h] obtain r where a: "c \<notin> set a" and t: "t = a @ c # r"
    and r: "split_on c r = [b]" by auto
  from split_on_Cons [OF r] have "c \<notin> set b" "r = b" by auto
  with a t show "t = a @ c # b \<and> c \<notin> set a \<and> c \<notin> set b" by simp
next
  assume "t = a @ c # b \<and> c \<notin> set a \<and> c \<notin> set b"
  then show "split_on c t = [a, b]" by (simp add: split_on_append split_on_no_sep)
qed

lemma length_two: "length xs = 2 \<longleftrightarrow> (\<exists>a b. xs = [a, b])"
  by (cases xs; cases "tl xs") auto

lemma ws_not_digit: "isWhiteSpace c \<Longrightarrow> \<not> isDigit c"
  by (auto simp: isWhiteSpace_def isDigit_def)

lemma sign_not_digit: "\<not> isDigit 0x2B" "\<not> isDigit 0x2D"
  by (simp_all add: isDigit_def)

lemma sign_not_ws: "\<not> isWhiteSpace 0x2B" "\<not> isWhiteSpace 0x2D"
  by (simp_all add: isWhiteSpace_def)

text \<open>The part of parseInt after the leading white space is gone.\<close>

lemma parseInt10_unfold:
  "parseInt10 s =
     (let S = dropWhile isWhiteSpace s;
          S' = (if S \<noteq> [] \<and> (hd S = 0x2B \<or> hd S = 0x2D) then tl S else S);
          Z = takeWhile isDigit S'
      in if Z = [] then NaN
         else to_double ((if S \<noteq> [] \<and> hd S = 0x2D then - 1 else 1) * digitsValue Z))"
  by (simp add: parseInt10_def trimStart_def Let_def)

lemma takeWhile_digit_ws:
  assumes "list_all isWhiteSpace U"
  shows "takeWhile isDigit (T @ U) = takeWhile isDigit T"
proof -
  have U: "takeWhile isDigit U = []"
    using assms by (cases U) (simp_all add: ws_not_digit)
  show ?thesis
  proof (cases "\<forall>x \<in> set T. isDigit x")
    case True
    then have a: "takeWhile isDigit (T @ U) = T @ takeWhile isDigit U"
      by (intro takeWhile_append2) simp
    have b: "takeWhile isDigit T = T" using True by (simp add: takeWhile_eq_all_conv)
    show ?thesis unfolding a b U by simp
  next
    case False
    then obtain x where "x \<in> set T" "\<not> isDigit x" by blast
    then show ?thesis by (rule takeWhile_append1)
  qed
qed

lemma trim_decomp:
  obtains U where "dropWhile isWhiteSpace s = trim s @ U" and "list_all isWhiteSpace U"
proof
  let ?S = "dropWhile isWhiteSpace s"
  show "?S = trim s @ rev (takeWhile isWhiteSpace (rev ?S))"
    unfolding trim_def by (metis rev_append rev_rev_ident takeWhile_dropWhile_id)
  show "list_all isWhiteSpace (rev (takeWhile isWhiteSpace (rev ?S)))"
    by (simp add: list_all_iff) (metis set_takeWhileD)
qed

lemma parseInt10_trim: "parseInt10 (trim s) = parseInt10 s"
proof -
  obtain U where S: "dropWhile isWhiteSpace s = trim s @ U" and U: "list_all isWhiteSpace U"
    by (rule trim_decomp)
  show ?thesis
  proof (cases "trim s = []")
    case True
    have a: "dropWhile isWhiteSpace s = []"
    proof (rule ccontr)
      assume ne: "dropWhile isWhiteSpace s \<noteq> []"
      then have "\<not> isWhiteSpace (hd (dropWhile isWhiteSpace s))" by (rule hd_dropWhile)
      moreover have "isWhiteSpace (hd (dropWhile isWhiteSpace s))"
        using ne U S True by (cases U) simp_all
      ultimately show False by simp
    qed
    have b: "dropWhile isWhiteSpace (trim s) = []" using True by simp
    show ?thesis unfolding parseInt10_unfold a b by (rule refl)
  next
    case False
    then obtain x T where T: "trim s = x # T" by (cases "trim s") auto
    have "\<not> isWhiteSpace (hd (dropWhile isWhiteSpace s))"
      by (rule hd_dropWhile) (simp add: S False)
    then have x: "\<not> isWhiteSpace x" by (simp add: S T)
    have d1: "dropWhile isWhiteSpace (trim s) = x # T" using x by (simp add: T)
    have d2: "dropWhile isWhiteSpace s = x # T @ U" by (simp add: S T)
    show ?thesis
      unfolding parseInt10_unfold [of "trim s"] parseInt10_unfold [of s] d1 d2
      using takeWhile_digit_ws [OF U, of T] takeWhile_digit_ws [OF U, of "x # T"]
      by (simp add: Let_def)
  qed
qed

lemma parseInt10_leading:
  assumes "list_all isWhiteSpace ws" and "sg = [] \<or> sg = [0x2B] \<or> sg = [0x2D]"
    and "ds \<noteq> []" and "list_all isDigit ds" and "takeWhile isDigit rest = []"
  shows "parseInt10 (ws @ sg @ ds @ rest)
           = to_double (if sg = [0x2D] then - digitsValue ds else digitsValue ds)"
proof -
  obtain d ds' where ds: "ds = d # ds'" using assms(3) by (cases ds) auto
  have d: "isDigit d" using assms(4) ds by simp
  have dw: "\<not> isWhiteSpace d" using d ws_not_digit by blast
  have dsg: "d \<noteq> 0x2B" "d \<noteq> 0x2D" using d sign_not_digit by auto
  have tw: "takeWhile isDigit (ds @ rest) = ds"
  proof -
    have "takeWhile isDigit (ds @ rest) = ds @ takeWhile isDigit rest"
      using assms(4) by (intro takeWhile_append2) (simp add: list_all_iff)
    then show ?thesis using assms(5) by simp
  qed
  have ne: "sg @ ds @ rest \<noteq> []" using assms(3) by simp
  have hd_nws: "\<not> isWhiteSpace (hd (sg @ ds @ rest))"
    using assms(2) dw sign_not_ws by (auto simp: ds)
  have dr: "dropWhile isWhiteSpace (ws @ sg @ ds @ rest) = sg @ ds @ rest"
  proof -
    have "dropWhile isWhiteSpace (ws @ sg @ ds @ rest) = dropWhile isWhiteSpace (sg @ ds @ rest)"
      using assms(1) by (intro dropWhile_append2) (simp add: list_all_iff)
    also have "\<dots> = sg @ ds @ rest"
      using ne hd_nws by (cases "sg @ ds @ rest") simp_all
    finally show ?thesis .
  qed
  from assms(2) show ?thesis
  proof (elim disjE)
    assume sg: "sg = []"
    have dr': "dropWhile isWhiteSpace (ws @ sg @ ds @ rest) = d # ds' @ rest"
      unfolding dr by (simp add: sg ds)
    have tw': "takeWhile isDigit (ds' @ rest) = ds'" using tw d by (simp add: ds)
    have v: "(if sg = [0x2D] then - digitsValue ds else digitsValue ds) = digitsValue ds"
      by (simp add: sg)
    show ?thesis unfolding parseInt10_unfold dr' v Let_def
      using dsg d by (simp add: tw' ds)
  next
    assume sg: "sg = [0x2B]"
    have dr': "dropWhile isWhiteSpace (ws @ sg @ ds @ rest) = 0x2B # ds @ rest"
      unfolding dr by (simp add: sg)
    have v: "(if sg = [0x2D] then - digitsValue ds else digitsValue ds) = digitsValue ds"
      by (simp add: sg)
    show ?thesis unfolding parseInt10_unfold dr' v Let_def
      using assms(3) by (simp add: tw)
  next
    assume sg: "sg = [0x2D]"
    have dr': "dropWhile isWhiteSpace (ws @ sg @ ds @ rest) = 0x2D # ds @ rest"
      unfolding dr by (simp add: sg)
    have v: "(if sg = [0x2D] then - digitsValue ds else digitsValue ds) = - digitsValue ds"
      by (simp add: sg)
    show ?thesis unfolding parseInt10_unfold dr' v Let_def
      using assms(3) by (simp add: tw)
  qed
qed

lemma parseInt10_iff: "leading_int s n \<longleftrightarrow> parseInt10 s = n \<and> n \<noteq> NaN"
proof
  assume "leading_int s n"
  then obtain ws sg ds rest where "s = ws @ sg @ ds @ rest" "list_all isWhiteSpace ws"
    "sg = [] \<or> sg = [0x2B] \<or> sg = [0x2D]" "ds \<noteq> []" "list_all isDigit ds"
    "takeWhile isDigit rest = []"
    "n = to_double (if sg = [0x2D] then - digitsValue ds else digitsValue ds)"
    unfolding leading_int_def by blast
  then show "parseInt10 s = n \<and> n \<noteq> NaN"
    using parseInt10_leading [of ws sg ds rest] by simp
next
  assume pn: "parseInt10 s = n \<and> n \<noteq> NaN"
  then have p: "parseInt10 s \<noteq> NaN" by blast
  define ws where "ws = takeWhile isWhiteSpace s"
  define S where "S = dropWhile isWhiteSpace s"
  define sg where "sg = (if S \<noteq> [] \<and> (hd S = 0x2B \<or> hd S = 0x2D) then [hd S] else [])"
  define S' where "S' = (if S \<noteq> [] \<and> (hd S = 0x2B \<or> hd S = 0x2D) then tl S else S)"
  define ds where "ds = takeWhile isDigit S'"
  define rest where "rest = dropWhile isDigit S'"
  have s: "s = ws @ S" by (simp add: ws_def S_def)
  have S: "S = sg @ S'" by (cases S) (auto simp: sg_def S'_def)
  have S': "S' = ds @ rest" by (simp add: ds_def rest_def)
  have 1: "s = ws @ sg @ ds @ rest" using s S S' by simp
  have 2: "list_all isWhiteSpace ws" by (simp add: ws_def list_all_iff) (metis set_takeWhileD)
  have 3: "sg = [] \<or> sg = [0x2B] \<or> sg = [0x2D]" by (auto simp: sg_def)
  have 5: "list_all isDigit ds" by (simp add: ds_def list_all_iff) (metis set_takeWhileD)
  have 6: "takeWhile isDigit rest = []"
  proof (cases rest)
    case Nil
    then show ?thesis by simp
  next
    case (Cons r rs)
    then have "rest \<noteq> []" by simp
    then have "\<not> isDigit (hd rest)" unfolding rest_def by (rule hd_dropWhile)
    then show ?thesis using Cons by simp
  qed
  have 4: "ds \<noteq> []"
  proof
    assume "ds = []"
    then have "parseInt10 s = NaN"
      unfolding parseInt10_unfold Let_def ds_def S'_def S_def by (simp only: simp_thms if_True)
    with p show False by simp
  qed
  have "parseInt10 s = to_double (if sg = [0x2D] then - digitsValue ds else digitsValue ds)"
    unfolding 1 by (rule parseInt10_leading [OF 2 3 4 5 6])
  with pn have "n = to_double (if sg = [0x2D] then - digitsValue ds else digitsValue ds)"
    by simp
  with 1 2 3 4 5 6 show "leading_int s n" unfolding leading_int_def by blast
qed

lemma parseScore_two:
  assumes "split_on 0x2F t = [a, b]"
  shows "parseScore t =
           (if parseInt10 (trim a) = NaN \<or> parseInt10 (trim b) = NaN then None
            else Some \<lparr>runs = parseInt10 (trim a), wickets = parseInt10 (trim b)\<rparr>)"
  unfolding parseScore_def Let_def assms by simp

lemma parseScore_not_two:
  assumes "length (split_on 0x2F t) \<noteq> 2"
  shows "parseScore t = None"
  unfolding parseScore_def Let_def using assms by simp

lemma parseScore_two_iff:
  assumes ab: "split_on 0x2F t = [a, b]"
  shows "parseScore t = Some \<lparr>runs = r, wickets = w\<rparr> \<longleftrightarrow>
           (parseInt10 (trim a) = r \<and> r \<noteq> NaN) \<and> (parseInt10 (trim b) = w \<and> w \<noteq> NaN)"
  by (simp only: parseScore_two [OF ab] split: if_splits) auto

lemma parseScore_Some_iff:
  "parseScore t = Some sc \<longleftrightarrow>
     (\<exists>a b. split_on 0x2F t = [a, b]
             \<and> (parseInt10 (trim a) = runs sc \<and> runs sc \<noteq> NaN)
             \<and> (parseInt10 (trim b) = wickets sc \<and> wickets sc \<noteq> NaN))"
proof (cases "length (split_on 0x2F t) = 2")
  case False
  then have "parseScore t = None" by (rule parseScore_not_two)
  moreover have "\<not> (\<exists>a b. split_on 0x2F t = [a, b])" using False by (metis length_two)
  ultimately show ?thesis by (metis option.distinct(1))
next
  case True
  then have "\<exists>a b. split_on 0x2F t = [a, b]" by (simp only: length_two)
  then obtain a b where ab: "split_on 0x2F t = [a, b]" by (elim exE)
  obtain r w where sc: "sc = \<lparr>runs = r, wickets = w\<rparr>" by (cases sc) simp
  have rw: "runs sc = r" "wickets sc = w" by (simp_all add: sc)
  have l: "parseScore t = Some sc \<longleftrightarrow>
             (parseInt10 (trim a) = runs sc \<and> runs sc \<noteq> NaN)
             \<and> (parseInt10 (trim b) = wickets sc \<and> wickets sc \<noteq> NaN)"
    unfolding rw unfolding sc by (rule parseScore_two_iff [OF ab])
  have r: "(\<exists>a' b'. split_on 0x2F t = [a', b']
             \<and> (parseInt10 (trim a') = runs sc \<and> runs sc \<noteq> NaN)
             \<and> (parseInt10 (trim b') = wickets sc \<and> wickets sc \<noteq> NaN))
           \<longleftrightarrow> (parseInt10 (trim a) = runs sc \<and> runs sc \<noteq> NaN)
             \<and> (parseInt10 (trim b) = wickets sc \<and> wickets sc \<noteq> NaN)"
    unfolding ab by blast
  show ?thesis unfolding l r by (rule refl)
qed

text \<open>
  Claim C2, as amended. \<^verbatim>\<open>parseScore\<close> returns a score exactly when the text consists
  of two segments around a single \<open>/\<close> and each segment begins, after optional white space,
  with an optional sign and at least one decimal digit; the runs and the wickets are the
  doubles nearest to the values of these leading integers (the values themselves below
  \<open>2^53\<close>, an infinity from about 309 digits on), and whatever follows the digits of a
  segment is ignored. Every other text (no separator, more than one separator, a segment
  without a leading integer, an empty segment) gives \<^verbatim>\<open>null\<close>. The function returns for
  every string of code units. In particular "200/4" gives 200 runs and 4 wickets, and
  "200", "a/4" and "200/" give \<^verbatim>\<open>null\<close>.
\<close>

theorem parseScore_leading_integers:
  "(parseScore t = Some sc \<longleftrightarrow>
      (\<exists>a b. t = a @ [0x2F] @ b \<and> 0x2F \<notin> set a \<and> 0x2F \<notin> set b
              \<and> leading_int a (runs sc) \<and> leading_int b (wickets sc)))
   \<and> (\<bar>m\<bar> < 2 ^ 53 \<longrightarrow> to_double m = Num m)
   \<and> parseScore (utf16 ''200/4'') = Some \<lparr>runs = Num 200, wickets = Num 4\<rparr>
   \<and> parseScore (utf16 ''200'') = None \<and> parseScore (utf16 ''a/4'') = None
   \<and> parseScore (utf16 ''200/'') = None"
proof (intro conjI impI)
  show "parseScore t = Some sc \<longleftrightarrow>
      (\<exists>a b. t = a @ [0x2F] @ b \<and> 0x2F \<notin> set a \<and> 0x2F \<notin> set b
              \<and> leading_int a (runs sc) \<and> leading_int b (wickets sc))"
    unfolding parseScore_Some_iff split_on_two parseInt10_trim parseInt10_iff by simp
  show "to_double m = Num m" if "\<bar>m\<bar> < 2 ^ 53" using that by (rule to_double_small)
  show "parseScore (utf16 ''200/4'') = Some \<lparr>runs = Num 200, wickets = Num 4\<rparr>"
    by (simp add: parse_eval)
  show "parseScore (utf16 ''200'') = None" by (simp add: parse_eval)
  show "parseScore (utf16 ''a/4'') = None" by (simp add: parse_eval)
  show "parseScore (utf16 ''200/'') = None" by (simp add: parse_eval)
qed

text \<open>
  Claim C2, as stated, fails: the segment "200x" is not a base-10 integer, yet the text
  "200x/4" is parsed, as 200 runs and 4 wickets.
\<close>

theorem parseScore_trailing_text_counterexample:
  "\<not> is_base10_integer (trim (utf16 ''200x''))
   \<and> parseScore (utf16 ''200x/4'') = Some \<lparr>runs = Num 200, wickets = Num 4\<rparr>"
  by (simp add: parse_eval is_base10_integer_def)

text \<open>
  An instance with a line separator (U+2028) before the runs, text after their digits, and
  wickets that are rounded: -9007199254740993 becomes -9007199254740992.
\<close>

theorem parseScore_leading_integers_witness:
  "leading_int [0x2028, 0x32, 0x30, 0x30, 0x78] (Num 200)
   \<and> leading_int (utf16 ''-9007199254740993 '') (Num (- 9007199254740992))
   \<and> parseScore ([0x2028, 0x32, 0x30, 0x30, 0x78] @ [0x2F] @ utf16 ''-9007199254740993 '')
       = Some \<lparr>runs = Num 200, wickets = Num (- 9007199254740992)\<rparr>
   \<and> \<bar>200 :: int\<bar> < 2 ^ 53 \<and> to_double 200 = Num 200"
proof -
  have r: "to_double (- 9007199254740993) = Num (- 9007199254740992)" by code_simp
  have a: "leading_int [0x2028, 0x32, 0x30, 0x30, 0x78] (Num 200)"
    unfolding leading_int_def
    by (rule exI [of _ "[0x2028]"], rule exI [of _ "[]"], rule exI [of _ "[0x32, 0x30, 0x30]"],
        rule exI [of _ "[0x78]"]) (simp add: parse_eval)
  have b: "leading_int (utf16 ''-9007199254740993 '') (Num (- 9007199254740992))"
    unfolding leading_int_def
    by (rule exI [of _ "[]"], rule exI [of _ "[0x2D]"],
        rule exI [of _ "utf16 ''9007199254740993''"], rule exI [of _ "[0x20]"])
       (simp add: parse_eval r)
  have c: "(0x2F :: code_unit) \<notin> set [0x2028, 0x32, 0x30, 0x30, 0x78]"
    "(0x2F :: code_unit) \<notin> set (utf16 ''-9007199254740993 '')"
    by (simp_all add: utf16_def)
  have "\<exists>x y. [0x2028, 0x32, 0x30, 0x30, 0x78] @ [0x2F] @ utf16 ''-9007199254740993 ''
                = x @ [0x2F] @ y \<and> 0x2F \<notin> set x \<and> 0x2F \<notin> set y
            \<and> leading_int x (runs \<lparr>runs = Num 200, wickets = Num (- 9007199254740992)\<rparr>)
            \<and> leading_int y (wickets \<lparr>runs = Num 200, wickets = Num (- 9007199254740992)\<rparr>)"
    using a b c
    by (intro exI [of _ "[0x2028, 0x32, 0x30, 0x30, 0x78]"]
          exI [of _ "utf16 ''-9007199254740993 ''"]) simp
  with parseScore_leading_integers
    [of "[0x2028, 0x32, 0x30, 0x30, 0x78] @ [0x2F] @ utf16 ''-9007199254740993 ''"
        "\<lparr>runs = Num 200, wickets = Num (- 9007199254740992)\<rparr>" 200]
  have "parseScore ([0x2028, 0x32, 0x30, 0x30, 0x78] @ [0x2F] @ utf16 ''-9007199254740993 '')
       = Some \<lparr>runs = Num 200, wickets = Num (- 9007199254740992)\<rparr>"
    and "to_double 200 = Num 200" by simp_all
  with a b show ?thesis by simp
qed

section \<open>The leaderboard\<close>

lemma finished_state:
  "run (sample_cfg Advanced) init_state finished_events
     = \<lparr>matches = [sample_match\<lparr>isOpen := False, actualRuns := Some (Num 200),
                                 actualWickets := Some (Num 4)\<rparr>],
        predictions = [(sample_pred ''101'' ''asha'' 204 4)\<lparr>comment := Some []\<rparr>,
                       (sample_pred ''102'' ''ben'' 202 4)\<lparr>comment := Some []\<rparr>],
        currentMatch = None\<rparr>"
  by (simp add: finished_events_def sample_eval handler_eval parse_eval)

text \<open>
  Claim C3 does not hold of the code. For the finished match above, \<^verbatim>\<open>mystats\<close>
  computes the average distances 4 (asha) and 2 (ben), so the claim ranks ben first. The \<^verbatim>\<open>leaderboard\<close> handler
  assigns each user \<^verbatim>\<open>Math.random() * 50\<close> instead: with the draws 0.1 and 0.8 it ranks
  asha first, with 5 against 40.
\<close>

theorem leaderboard_ranks_by_random_draw:
  "mystats_cmd (run (sample_cfg Advanced) init_state finished_events) ''101'' = MyStats 1 (Ratio 4)
   \<and> mystats_cmd (run (sample_cfg Advanced) init_state finished_events) ''102'' = MyStats 1 (Ratio 2)
   \<and> leaderboard_cmd (run (sample_cfg Advanced) init_state finished_events) sample_random
       = Leaderboard [(''asha'', 5), (''ben'', 40)]"
  unfolding finished_state
  by (simp add: mystats_cmd_def getUserStats_def joined_rows_def join_row_def totalDiff_def
        leaderboard_cmd_def getAllUserStats_def group_rows_def object_entries_def
        is_array_index_def sample_random_def sample_eval scoreDifference_advanced_def
        parse_eval enumerate_simps)

end
